theory Spec2Isabelle
  imports Complex_Main "HOL-Library.Multiset" "HOL-Library.Sublist"
begin

section \<open>The review screen of the React front end (App.jsx)\<close>

subsection \<open>JSON data received from the server\<close>

text \<open>
  Identifiers arrive as JSON values: a number or a string.  A field that holds
  \<^verbatim>\<open>null\<close> or is missing is \<open>None\<close>.  The test \<^verbatim>\<open>if (x)\<close> of JavaScript
  is false for \<^verbatim>\<open>null\<close>, for the number 0 and for the empty string.
\<close>

datatype js_id = IdNum int | IdStr string

fun truthy_id :: "js_id option \<Rightarrow> bool" where
  "truthy_id None = False"
| "truthy_id (Some (IdNum n)) = (n \<noteq> 0)"
| "truthy_id (Some (IdStr t)) = (t \<noteq> [])"

text \<open>
  Coordinates are JavaScript numbers; the model takes them as reals, and a page
  number as an integer.
\<close>

record highlight =
  h_id :: js_id
  h_page :: int
  x0 :: real
  y0 :: real
  x1 :: real
  y1 :: real
  h_width :: real
  h_height :: real
  comment_id :: js_id

record citation =
  quote :: string
  cit_page :: "int option"
  highlight_id :: "js_id option"

record comment =
  c_id :: js_id
  reviewer_type :: string
  c_title :: string
  c_content :: string
  severity :: string
  c_page :: "int option"
  citations :: "citation list option"
  highlight_rects :: "highlight list option"

record reviewer_result =
  r_type :: string
  status :: string
  summary :: "string option"

text \<open>
  The review data held in the component's state.  Every read of it in the
  component (\<^verbatim>\<open>reviewData?.highlights\<close>, \<^verbatim>\<open>reviewData?.comments?.filter\<close>,
  \<^verbatim>\<open>... || []\<close>) takes a property that is missing and one that holds \<^verbatim>\<open>null\<close>
  alike: both are \<open>None\<close> here.
\<close>

record review_data =
  rd_id :: "js_id option"
  rd_title :: "string option"
  rd_reviewers :: "reviewer_result list option"
  rd_comments :: "comment list option"
  rd_highlights :: "highlight list option"

text \<open>
  The body of a response (upload or analyze).  A property of it is absent, holds
  \<^verbatim>\<open>null\<close>, or holds a value.
\<close>

datatype 'a property = Absent | Null | Holds 'a

record response_body =
  b_id :: "js_id property"
  b_title :: "string property"
  b_reviewers :: "reviewer_result list property"
  b_comments :: "comment list property"
  b_highlights :: "highlight list property"

text \<open>What a read that tests for truth sees of a property.\<close>

definition present :: "'a property \<Rightarrow> 'a option" where
  "present x = (case x of Holds v \<Rightarrow> Some v | _ \<Rightarrow> None)"

text \<open>
  One property of \<^verbatim>\<open>{...uploadResponse.data, ...analyzeResponse.data}\<close>: the
  second body's property wins whenever it is there, also when it holds
  \<^verbatim>\<open>null\<close>.
\<close>

definition spread_property :: "'a property \<Rightarrow> 'a property \<Rightarrow> 'a option" where
  "spread_property up an = (case an of Absent \<Rightarrow> present up | _ \<Rightarrow> present an)"

definition spread :: "response_body \<Rightarrow> response_body \<Rightarrow> review_data" where
  "spread up an =
     \<lparr> rd_id = spread_property (b_id up) (b_id an),
       rd_title = spread_property (b_title up) (b_title an),
       rd_reviewers = spread_property (b_reviewers up) (b_reviewers an),
       rd_comments = spread_property (b_comments up) (b_comments an),
       rd_highlights = spread_property (b_highlights up) (b_highlights an) \<rparr>"

subsection \<open>Component state and effects\<close>

record js_file =
  f_name :: string

text \<open>
  The three addresses; the last two are built from the \<^verbatim>\<open>id\<close> property of the
  upload body as it is (a missing one prints as \<^verbatim>\<open>undefined\<close>).
\<close>

datatype url = UploadUrl | ReviewPdfUrl "js_id property" | AnalyzeUrl "js_id property"

datatype request = Post url "js_file option"

text \<open>
  The \<^verbatim>\<open>useState\<close> cells of the component, followed by three logs of its
  effects: the HTTP requests sent with axios, the messages shown with
  \<^verbatim>\<open>alert\<close>, and the delays of the pending \<^verbatim>\<open>setTimeout\<close> callbacks (each
  of them is \<^verbatim>\<open>() => setActiveHighlight(null)\<close>).
\<close>

record app_state =
  reviewId :: "js_id option"
  reviewData :: "review_data option"
  selectedReviewer :: "string option"
  loading :: bool
  loadingMessage :: string
  numPages :: "int option"
  currentPage :: int
  scale :: real
  pdfUrl :: "url option"
  dragging :: bool
  activeHighlight :: "js_id option"
  pageSize :: "real \<times> real"
  showAuthModal :: bool
  showPricingModal :: bool
  reviewsThisMonth :: int
  requests :: "request list"
  alerts :: "string list"
  timeouts :: "nat list"

text \<open>What \<^verbatim>\<open>useAuth()\<close> hands to the component.\<close>

record auth =
  isConfigured :: bool
  user :: "string option"
  plan_id :: "string option"

text \<open>
  The server as the component sees it: each request either rejects with a
  message or resolves with a body.
\<close>

record server =
  upload_reply :: "js_file \<Rightarrow> string + response_body"
  analyze_reply :: "js_id property \<Rightarrow> string + response_body"

subsection \<open>Uploading\<close>

definition endsWith :: "string \<Rightarrow> string \<Rightarrow> bool" where
  "endsWith str suf =
     (length suf \<le> length str \<and> drop (length str - length suf) str = suf)"

definition FREE_REVIEWS_LIMIT :: int where
  "FREE_REVIEWS_LIMIT = 3"

definition canReview :: "auth \<Rightarrow> app_state \<Rightarrow> bool" where
  "canReview a s =
     (\<not> isConfigured a \<or> user a = None \<or> plan_id a = Some ''pro''
      \<or> plan_id a = Some ''team'' \<or> reviewsThisMonth s < FREE_REVIEWS_LIMIT)"

definition alert :: "string \<Rightarrow> app_state \<Rightarrow> app_state" where
  "alert msg s = s\<lparr>alerts := alerts s @ [msg]\<rparr>"

definition finally_block :: "app_state \<Rightarrow> app_state" where
  "finally_block s = s\<lparr>loading := False, loadingMessage := []\<rparr>"

definition catch_block :: "string \<Rightarrow> app_state \<Rightarrow> app_state" where
  "catch_block msg s = alert (''Error processing file: '' @ msg) s"

definition select_first_reviewer :: "response_body \<Rightarrow> app_state \<Rightarrow> app_state" where
  "select_first_reviewer an s =
     (case b_reviewers an of
        Holds (r # rs) \<Rightarrow> s\<lparr>selectedReviewer := Some (r_type r)\<rparr>
      | _ \<Rightarrow> s)"

text \<open>
  The body of the \<^verbatim>\<open>try\<close> block of \<^verbatim>\<open>AppContent\<close>, run to its end: the
  upload request, then the analyze request; a request that rejects leads to the
  \<^verbatim>\<open>catch\<close> block.
\<close>

definition try_block :: "server \<Rightarrow> js_file \<Rightarrow> app_state \<Rightarrow> app_state" where
  "try_block srv f s =
     (let s1 = s\<lparr>requests := requests s @ [Post UploadUrl (Some f)]\<rparr> in
      case upload_reply srv f of
        Inl msg \<Rightarrow> catch_block msg s1
      | Inr up \<Rightarrow>
          (let ident = b_id up;
               s2 = s1\<lparr>reviewId := present ident, pdfUrl := Some (ReviewPdfUrl ident),
                       loadingMessage := ''Analyzing paper with AI reviewers...'',
                       requests := requests s1 @ [Post (AnalyzeUrl ident) None]\<rparr>
           in case analyze_reply srv ident of
                Inl msg \<Rightarrow> catch_block msg s2
              | Inr an \<Rightarrow>
                  (let shown = (spread up an)\<lparr>rd_highlights :=
                                  Some (case b_highlights an of Holds hs \<Rightarrow> hs | _ \<Rightarrow> [])\<rparr>;
                       s3 = select_first_reviewer an (s2\<lparr>reviewData := Some shown\<rparr>)
                   in s3\<lparr>reviewsThisMonth := reviewsThisMonth s3 + 1\<rparr>)))"

text \<open>\<^verbatim>\<open>handleFileUpload\<close> of \<^verbatim>\<open>AppContent\<close> (the version with sign-in and plans).\<close>

definition handleFileUpload ::
  "auth \<Rightarrow> server \<Rightarrow> js_file option \<Rightarrow> app_state \<Rightarrow> app_state" where
  "handleFileUpload a srv fl s =
     (case fl of
        None \<Rightarrow> alert ''Please upload a PDF file'' s
      | Some f \<Rightarrow>
          if \<not> endsWith (f_name f) ''.pdf'' then alert ''Please upload a PDF file'' s
          else if \<not> canReview a s then s\<lparr>showPricingModal := True\<rparr>
          else finally_block
                 (try_block srv f
                    (s\<lparr>loading := True, loadingMessage := ''Uploading PDF...''\<rparr>)))"

text \<open>
  The same two functions in the earlier \<^verbatim>\<open>App\<close>, which has no plans, no
  default for \<^verbatim>\<open>highlights\<close> and no count of reviews.
\<close>

definition App_try_block :: "server \<Rightarrow> js_file \<Rightarrow> app_state \<Rightarrow> app_state" where
  "App_try_block srv f s =
     (let s1 = s\<lparr>requests := requests s @ [Post UploadUrl (Some f)]\<rparr> in
      case upload_reply srv f of
        Inl msg \<Rightarrow> catch_block msg s1
      | Inr up \<Rightarrow>
          (let ident = b_id up;
               s2 = s1\<lparr>reviewId := present ident, pdfUrl := Some (ReviewPdfUrl ident),
                       loadingMessage := ''Analyzing paper with AI reviewers...'',
                       requests := requests s1 @ [Post (AnalyzeUrl ident) None]\<rparr>
           in case analyze_reply srv ident of
                Inl msg \<Rightarrow> catch_block msg s2
              | Inr an \<Rightarrow>
                  select_first_reviewer an (s2\<lparr>reviewData := Some (spread up an)\<rparr>)))"

definition App_handleFileUpload ::
  "server \<Rightarrow> js_file option \<Rightarrow> app_state \<Rightarrow> app_state" where
  "App_handleFileUpload srv fl s =
     (case fl of
        None \<Rightarrow> alert ''Please upload a PDF file'' s
      | Some f \<Rightarrow>
          if \<not> endsWith (f_name f) ''.pdf'' then alert ''Please upload a PDF file'' s
          else finally_block
                 (App_try_block srv f
                    (s\<lparr>loading := True, loadingMessage := ''Uploading PDF...''\<rparr>)))"

subsection \<open>Page navigation\<close>

text \<open>\<^verbatim>\<open>numPages || 1\<close>: 1 while \<^verbatim>\<open>numPages\<close> is \<^verbatim>\<open>null\<close>, and also when it is 0.\<close>

definition numPages_or_1 :: "int option \<Rightarrow> int" where
  "numPages_or_1 n = (case n of None \<Rightarrow> 1 | Some k \<Rightarrow> if k = 0 then 1 else k)"

definition goToPage :: "int \<Rightarrow> app_state \<Rightarrow> app_state" where
  "goToPage page s =
     s\<lparr>currentPage := max 1 (min page (numPages_or_1 (numPages s)))\<rparr>"

text \<open>
  \<^verbatim>\<open>navigateToHighlight\<close>, the \<^verbatim>\<open>onClick\<close> of a comment card.  The test
  \<^verbatim>\<open>comment.page\<close> is false for a missing page and for page 0.
\<close>

definition navigateToHighlight :: "comment \<Rightarrow> app_state \<Rightarrow> app_state" where
  "navigateToHighlight c s =
     (case highlight_rects c of
        Some (h # hs) \<Rightarrow>
          s\<lparr>currentPage := h_page h, activeHighlight := Some (h_id h),
            timeouts := timeouts s @ [2000]\<rparr>
      | _ \<Rightarrow>
          (case c_page c of
             Some p \<Rightarrow> if p \<noteq> 0 then s\<lparr>currentPage := p\<rparr> else s
           | None \<Rightarrow> s))"

text \<open>A pending timeout fires: \<^verbatim>\<open>() => setActiveHighlight(null)\<close>.\<close>

definition fire_timeout :: "app_state \<Rightarrow> app_state" where
  "fire_timeout s =
     (case timeouts s of
        [] \<Rightarrow> s
      | d # ds \<Rightarrow> s\<lparr>activeHighlight := None, timeouts := ds\<rparr>)"

subsection \<open>Citations of a comment\<close>

text \<open>
  The \<^verbatim>\<open>onClick\<close> of a citation item.  It first stops the propagation of the
  click, so the second component of the result is whether the click still
  reaches the comment card.  Reading \<^verbatim>\<open>reviewData.highlights.find\<close> throws a
  TypeError when \<^verbatim>\<open>reviewData\<close> is \<^verbatim>\<open>null\<close> or has no \<^verbatim>\<open>highlights\<close>.
\<close>

datatype js_error = TypeError

definition citation_onClick ::
  "citation \<Rightarrow> app_state \<Rightarrow> (js_error + app_state) \<times> bool" where
  "citation_onClick cit s =
     (if truthy_id (highlight_id cit) then
        (case reviewData s of
           None \<Rightarrow> (Inl TypeError, False)
         | Some rd \<Rightarrow>
             (case rd_highlights rd of
                None \<Rightarrow> (Inl TypeError, False)
              | Some hs \<Rightarrow>
                  (case find (\<lambda>h. Some (h_id h) = highlight_id cit) hs of
                     Some h \<Rightarrow>
                       (Inr (s\<lparr>currentPage := h_page h, activeHighlight := Some (h_id h),
                                timeouts := timeouts s @ [2000]\<rparr>), False)
                   | None \<Rightarrow> (Inr s, False))))
      else (Inr s, False))"

text \<open>
  A click on a citation item inside the card of comment \<open>c\<close>: the item's handler
  runs, and the card's handler runs after it only if the click propagates.
\<close>

definition click_citation ::
  "comment \<Rightarrow> citation \<Rightarrow> app_state \<Rightarrow> js_error + app_state" where
  "click_citation c cit s =
     (case citation_onClick cit s of
        (Inl e, propagates) \<Rightarrow> Inl e
      | (Inr s', propagates) \<Rightarrow>
          if propagates then Inr (navigateToHighlight c s') else Inr s')"

text \<open>
  What a citation item shows: the first 80 characters of the quote between
  quotation marks and followed by three dots, and the page.
\<close>

record citation_item =
  ci_quote :: string
  ci_page :: "int option"

definition citation_item_of :: "citation \<Rightarrow> citation_item" where
  "citation_item_of cit =
     \<lparr> ci_quote = [CHR 0x22] @ take 80 (quote cit) @ ''...'' @ [CHR 0x22],
       ci_page = cit_page cit \<rparr>"

definition citations_list :: "comment \<Rightarrow> citation_item list" where
  "citations_list c =
     (case citations c of
        Some (x # xs) \<Rightarrow> map citation_item_of (x # xs)
      | _ \<Rightarrow> [])"

subsection \<open>The highlights layer over the page\<close>

definition getCurrentPageHighlights :: "app_state \<Rightarrow> highlight list" where
  "getCurrentPageHighlights s =
     (case reviewData s of
        None \<Rightarrow> []
      | Some rd \<Rightarrow>
          (case rd_highlights rd of
             None \<Rightarrow> []
           | Some hs \<Rightarrow> filter (\<lambda>h. h_page h = currentPage s) hs))"

text \<open>
  \<^verbatim>\<open>(a / b) * 100\<close> followed by the percent sign.  Dividing by 0 gives
  \<^verbatim>\<open>Infinity\<close> or \<^verbatim>\<open>NaN\<close> in JavaScript, which is no percentage: \<open>None\<close>.
\<close>

definition percent :: "real \<Rightarrow> real \<Rightarrow> real option" where
  "percent a b = (if b = 0 then None else Some (a / b * 100))"

record overlay =
  ov_active :: bool
  ov_left :: "real option"
  ov_top :: "real option"
  ov_width :: "real option"
  ov_height :: "real option"

definition pdf_highlight :: "app_state \<Rightarrow> highlight \<Rightarrow> overlay" where
  "pdf_highlight s h =
     \<lparr> ov_active = (activeHighlight s = Some (h_id h)),
       ov_left = percent (x0 h) (h_width h),
       ov_top = percent (y0 h) (h_height h),
       ov_width = percent (x1 h - x0 h) (h_width h),
       ov_height = percent (y1 h - y0 h) (h_height h) \<rparr>"

definition highlights_layer :: "app_state \<Rightarrow> overlay list" where
  "highlights_layer s = map (pdf_highlight s) (getCurrentPageHighlights s)"

text \<open>The zoom buttons.\<close>

definition zoom_out :: "app_state \<Rightarrow> app_state" where
  "zoom_out s = s\<lparr>scale := max 0.5 (scale s - 0.1)\<rparr>"

definition zoom_in :: "app_state \<Rightarrow> app_state" where
  "zoom_in s = s\<lparr>scale := min 2 (scale s + 0.1)\<rparr>"

subsection \<open>The list of reviewers in the sidebar\<close>

text \<open>The configured personas (their icons are left out).\<close>

record persona =
  p_type :: string
  p_name :: string
  iconBg :: string
  description :: string

definition reviewers :: "persona list" where
  "reviewers =
     [ \<lparr> p_type = ''editor_overview'', p_name = ''Editor Overview'',
         iconBg = ''bg-blue-100'', description = ''High-level editorial assessment'' \<rparr>,
       \<lparr> p_type = ''methodology_reviewer'', p_name = ''Methodology'',
         iconBg = ''bg-amber-100'', description = ''Research design evaluation'' \<rparr>,
       \<lparr> p_type = ''novelty_reviewer'', p_name = ''Novelty'',
         iconBg = ''bg-pink-100'', description = ''Originality assessment'' \<rparr>,
       \<lparr> p_type = ''clarity_reviewer'', p_name = ''Clarity & Writing'',
         iconBg = ''bg-indigo-100'', description = ''Writing quality review'' \<rparr>,
       \<lparr> p_type = ''reproducibility_reviewer'', p_name = ''Reproducibility'',
         iconBg = ''bg-emerald-100'', description = ''Reproducibility check'' \<rparr> ]"

record reviewer_item =
  item_key :: string
  item_name :: string
  item_active :: bool
  commentCount :: nat
  isCompleted :: bool

definition reviewerData :: "app_state \<Rightarrow> string \<Rightarrow> reviewer_result option" where
  "reviewerData s t =
     (case reviewData s of
        None \<Rightarrow> None
      | Some rd \<Rightarrow>
          (case rd_reviewers rd of
             None \<Rightarrow> None
           | Some rs \<Rightarrow> find (\<lambda>r. r_type r = t) rs))"

definition reviewer_item_of :: "app_state \<Rightarrow> persona \<Rightarrow> reviewer_item" where
  "reviewer_item_of s reviewer =
     \<lparr> item_key = p_type reviewer,
       item_name = p_name reviewer,
       item_active = (selectedReviewer s = Some (p_type reviewer)),
       commentCount =
         (case reviewData s of
            None \<Rightarrow> 0
          | Some rd \<Rightarrow>
              (case rd_comments rd of
                 None \<Rightarrow> 0
               | Some cs \<Rightarrow> length (filter (\<lambda>c. reviewer_type c = p_type reviewer) cs))),
       isCompleted =
         (case reviewerData s (p_type reviewer) of
            None \<Rightarrow> False
          | Some r \<Rightarrow> status r = ''completed'') \<rparr>"

definition reviewer_list :: "app_state \<Rightarrow> reviewer_item list" where
  "reviewer_list s = map (reviewer_item_of s) reviewers"

subsection \<open>Values for worked examples\<close>

text \<open>The initial values of the \<^verbatim>\<open>useState\<close> cells, with empty effect logs.\<close>

definition initial_state :: app_state where
  "initial_state =
     \<lparr> reviewId = None, reviewData = None, selectedReviewer = None, loading = False,
       loadingMessage = [], numPages = None, currentPage = 1, scale = 1, pdfUrl = None,
       dragging = False, activeHighlight = None, pageSize = (612, 792),
       showAuthModal = False, showPricingModal = False, reviewsThisMonth = 0,
       requests = [], alerts = [], timeouts = [] \<rparr>"

definition signed_out :: auth where
  "signed_out = \<lparr> isConfigured = False, user = None, plan_id = None \<rparr>"

definition offline :: server where
  "offline = \<lparr> upload_reply = (\<lambda>f. Inl ''Network Error''),
               analyze_reply = (\<lambda>i. Inl ''Network Error'') \<rparr>"

definition sample_highlight :: highlight where
  "sample_highlight =
     \<lparr> h_id = IdNum 7, h_page = 2, x0 = 10, y0 = 20, x1 = 300, y1 = 35,
       h_width = 600, h_height = 800, comment_id = IdNum 3 \<rparr>"

definition sample_citation :: citation where
  "sample_citation =
     \<lparr> quote = ''We report a 92% accuracy'', cit_page = Some 2, highlight_id = None \<rparr>"

definition sample_comment :: comment where
  "sample_comment =
     \<lparr> c_id = IdNum 3, reviewer_type = ''methodology_reviewer'', c_title = ''Accuracy'',
       c_content = ''The reported accuracy lacks a confidence interval.'',
       severity = ''major'', c_page = Some 4, citations = Some [sample_citation],
       highlight_rects = Some [sample_highlight] \<rparr>"

definition sample_reviewers :: "reviewer_result list" where
  "sample_reviewers =
     [ \<lparr> r_type = ''novelty_reviewer'', status = ''completed'', summary = Some ''Novel.'' \<rparr>,
       \<lparr> r_type = ''editor_overview'', status = ''failed'', summary = None \<rparr> ]"

definition sample_review :: review_data where
  "sample_review =
     \<lparr> rd_id = Some (IdStr ''r1''), rd_title = Some ''A paper'',
       rd_reviewers = Some sample_reviewers, rd_comments = Some [sample_comment],
       rd_highlights = Some [sample_highlight] \<rparr>"

definition review_screen :: app_state where
  "review_screen =
     initial_state\<lparr> reviewId := Some (IdStr ''r1''), reviewData := Some sample_review,
                     numPages := Some 12, currentPage := 2 \<rparr>"

section \<open>Usage counting in the database (supabase\_schema.sql)\<close>

text \<open>
  A \<^verbatim>\<open>UUID\<close> is written as its text.  A timestamp is a year, a month and the
  rest; \<^verbatim>\<open>to_char(NOW(), 'YYYY-MM')\<close> prints the year with all its digits, at
  least four, and the month with two.
\<close>

type_synonym uuid = string

record timestamptz =
  ts_year :: nat
  ts_month :: nat
  ts_rest :: nat

definition digit :: "nat \<Rightarrow> char" where
  "digit n = ''0123456789'' ! (n mod 10)"

fun decimal :: "nat \<Rightarrow> string" where
  "decimal n = (if n < 10 then [digit n] else decimal (n div 10) @ [digit n])"

declare decimal.simps [simp del]

definition zero_padded :: "nat \<Rightarrow> nat \<Rightarrow> string" where
  "zero_padded w n = replicate (w - length (decimal n)) (CHR ''0'') @ decimal n"

definition to_char_YYYY_MM :: "timestamptz \<Rightarrow> string" where
  "to_char_YYYY_MM t = zero_padded 4 (ts_year t) @ CHR ''-'' # zero_padded 2 (ts_month t)"

text \<open>
  A row of table \<^verbatim>\<open>usage\<close> without its generated key.  The columns
  \<^verbatim>\<open>user_id\<close> and \<^verbatim>\<open>review_count\<close> are not declared \<^verbatim>\<open>NOT NULL\<close>, so both
  may hold \<^verbatim>\<open>NULL\<close> (\<open>None\<close>).  The database is that table together with the
  keys of \<^verbatim>\<open>auth.users\<close>, which \<^verbatim>\<open>user_id\<close> references.
\<close>

record usage_row =
  u_user_id :: "uuid option"
  u_month :: string
  review_count :: "int option"
  created_at :: timestamptz
  updated_at :: timestamptz

record db =
  auth_users :: "uuid list"
  usage :: "usage_row list"

datatype sql_error = numeric_value_out_of_range | foreign_key_violation

text \<open>Addition of two \<^verbatim>\<open>INTEGER\<close> values: PostgreSQL raises when the sum leaves the 32-bit range.\<close>

definition int4pl :: "int \<Rightarrow> int \<Rightarrow> sql_error + int" where
  "int4pl a b =
     (if - 2147483648 \<le> a + b \<and> a + b \<le> 2147483647 then Inr (a + b)
      else Inl numeric_value_out_of_range)"

text \<open>
  \<^verbatim>\<open>user_id = p_user_id AND month = current_month\<close> is true; a comparison with
  \<^verbatim>\<open>NULL\<close> is never true.  The same test decides the conflict on
  \<^verbatim>\<open>UNIQUE(user_id, month)\<close>.
\<close>

definition same_user_month :: "uuid option \<Rightarrow> string \<Rightarrow> usage_row \<Rightarrow> bool" where
  "same_user_month p m r = (p \<noteq> None \<and> u_user_id r = p \<and> u_month r = m)"

text \<open>\<^verbatim>\<open>DO UPDATE SET\<close> on the conflicting row.\<close>

fun do_update ::
  "uuid option \<Rightarrow> string \<Rightarrow> (usage_row \<Rightarrow> usage_row) \<Rightarrow> usage_row list \<Rightarrow> usage_row list" where
  "do_update p m f [] = []"
| "do_update p m f (r # rs) =
     (if same_user_month p m r then f r # rs else r # do_update p m f rs)"

definition increment_usage :: "uuid option \<Rightarrow> timestamptz \<Rightarrow> db \<Rightarrow> sql_error + db" where
  "increment_usage p_user_id now d =
     (let current_month = to_char_YYYY_MM now in
      case find (same_user_month p_user_id current_month) (usage d) of
        None \<Rightarrow>
          if (case p_user_id of None \<Rightarrow> True | Some u \<Rightarrow> u \<in> set (auth_users d))
          then Inr (d\<lparr>usage := usage d @
                  [\<lparr> u_user_id = p_user_id, u_month = current_month, review_count = Some 1,
                     created_at = now, updated_at = now \<rparr>]\<rparr>)
          else Inl foreign_key_violation
      | Some r \<Rightarrow>
          (case review_count r of
             None \<Rightarrow>
               Inr (d\<lparr>usage := do_update p_user_id current_month
                                   (\<lambda>r. r\<lparr>review_count := None, updated_at := now\<rparr>) (usage d)\<rparr>)
           | Some n \<Rightarrow>
               (case int4pl n 1 of
                  Inl e \<Rightarrow> Inl e
                | Inr n' \<Rightarrow>
                    Inr (d\<lparr>usage := do_update p_user_id current_month
                                   (\<lambda>r. r\<lparr>review_count := Some n', updated_at := now\<rparr>) (usage d)\<rparr>))))"

text \<open>\<^verbatim>\<open>SELECT review_count INTO count\<close> reads the first matching row; \<^verbatim>\<open>COALESCE(count, 0)\<close>.\<close>

definition get_monthly_usage :: "uuid option \<Rightarrow> timestamptz \<Rightarrow> db \<Rightarrow> int" where
  "get_monthly_usage p_user_id now d =
     (let current_month = to_char_YYYY_MM now;
          cnt = (case find (same_user_month p_user_id current_month) (usage d) of
                   None \<Rightarrow> None
                 | Some r \<Rightarrow> review_count r)
      in case cnt of None \<Rightarrow> 0 | Some n \<Rightarrow> n)"

text \<open>Values for worked examples.\<close>

definition jan5 :: timestamptz where
  "jan5 = \<lparr> ts_year = 2026, ts_month = 1, ts_rest = 5 \<rparr>"

definition jan9 :: timestamptz where
  "jan9 = \<lparr> ts_year = 2026, ts_month = 1, ts_rest = 9 \<rparr>"

definition usage_of :: "int option \<Rightarrow> db" where
  "usage_of cnt =
     \<lparr> auth_users = [''u1''],
       usage = [\<lparr> u_user_id = Some ''u1'', u_month = ''2026-01'', review_count = cnt,
                  created_at = jan5, updated_at = jan5 \<rparr>] \<rparr>"

definition no_usage :: db where
  "no_usage = \<lparr> auth_users = [''u1''], usage = [] \<rparr>"

section \<open>The review pipeline, modelled from the specification\<close>

text \<open>
  The server side of the repository (geometry extraction, the reviewer tasks,
  their orchestration, citation resolution and aggregation) is not among the
  source files; the front end above only calls it.  Its data and the three
  components that the properties below are about are modelled from sections 3
  and 4 of the specification.
\<close>

subsection \<open>Page geometry\<close>

text \<open>
  Modelled from the spec: \<open>TextSpan\<close> and \<open>PageGeometry\<close> of the data model (section 3);
  the Geometry Extractor that produces them is missing.
\<close>

record TextSpan =
  span_text :: string
  sp_x0 :: real
  sp_y0 :: real
  sp_x1 :: real
  sp_y1 :: real

record PageGeometry =
  page_index :: nat
  pg_width :: real
  pg_height :: real
  spans :: "TextSpan list"

subsection \<open>Citation Resolver\<close>

text \<open>
  Modelled from the spec: step 1 of the resolver (section 4.4), normalising
  whitespace and case; the resolver's code is missing.  ASCII letters are
  lower-cased, the text is split at whitespace, and the words are joined with
  single spaces.
\<close>

definition is_space :: "char \<Rightarrow> bool" where
  "is_space c = (c \<in> set [CHR '' '', CHR 0x09, CHR 0x0A, CHR 0x0B, CHR 0x0C, CHR 0x0D])"

definition to_lower :: "char \<Rightarrow> char" where
  "to_lower c =
     (case map_of (zip ''ABCDEFGHIJKLMNOPQRSTUVWXYZ'' ''abcdefghijklmnopqrstuvwxyz'') c of
        Some d \<Rightarrow> d
      | None \<Rightarrow> c)"

fun split_acc :: "string \<Rightarrow> string \<Rightarrow> string list" where
  "split_acc cur [] = (if cur = [] then [] else [cur])"
| "split_acc cur (c # cs) =
     (if is_space c then (if cur = [] then split_acc [] cs else cur # split_acc [] cs)
      else split_acc (cur @ [c]) cs)"

definition split_ws :: "string \<Rightarrow> string list" where
  "split_ws s = split_acc [] s"

fun join_sp :: "string list \<Rightarrow> string" where
  "join_sp [] = []"
| "join_sp [w] = w"
| "join_sp (w # ws) = w @ CHR '' '' # join_sp ws"

definition norm_text :: "string \<Rightarrow> string" where
  "norm_text s = join_sp (split_ws (map to_lower s))"

text \<open>
  Modelled from the spec: the exact substring match of step 3, as the offset of
  the first occurrence of the quote in a text, if there is one.
\<close>

fun find_sub :: "'a list \<Rightarrow> 'a list \<Rightarrow> nat option" where
  "find_sub q [] = (if q = [] then Some 0 else None)"
| "find_sub q (y # ys) =
     (if prefix q (y # ys) then Some 0 else map_option Suc (find_sub q ys))"

text \<open>
  Modelled from the spec: bounding boxes and their union (step 4).  No box is
  the union of no boxes.
\<close>

record box =
  bx0 :: real
  by0 :: real
  bx1 :: real
  by1 :: real

definition span_box :: "TextSpan \<Rightarrow> box" where
  "span_box sp = \<lparr> bx0 = sp_x0 sp, by0 = sp_y0 sp, bx1 = sp_x1 sp, by1 = sp_y1 sp \<rparr>"

definition box_union :: "box \<Rightarrow> box \<Rightarrow> box" where
  "box_union a b =
     \<lparr> bx0 = min (bx0 a) (bx0 b), by0 = min (by0 a) (by0 b),
       bx1 = max (bx1 a) (bx1 b), by1 = max (by1 a) (by1 b) \<rparr>"

fun union_boxes :: "box list \<Rightarrow> box option" where
  "union_boxes [] = None"
| "union_boxes (b # bs) = Some (fold (\<lambda>c acc. box_union acc c) bs b)"

text \<open>
  Modelled from the spec: the text of a page is the normalised concatenation of
  its spans' texts in reading order, joined with spaces.  \<open>span_words\<close> pairs
  every span that has text with its normalised text; \<open>owners\<close> names, for every
  character of the page text, the span it comes from (the space after a span
  counts with that span).
\<close>

definition span_words :: "PageGeometry \<Rightarrow> (string \<times> TextSpan) list" where
  "span_words pg =
     filter (\<lambda>(t, sp). t \<noteq> []) (map (\<lambda>sp. (norm_text (span_text sp), sp)) (spans pg))"

definition page_text :: "PageGeometry \<Rightarrow> string" where
  "page_text pg = norm_text (join_sp (map span_text (spans pg)))"

definition owners :: "(string \<times> TextSpan) list \<Rightarrow> TextSpan list" where
  "owners ws = concat (map (\<lambda>(t, sp). replicate (length t + 1) sp) ws)"

text \<open>
  Modelled from the spec: the spans that cover the part of the page text that
  starts at offset \<open>i\<close> and has length \<open>n\<close>, in reading order.
\<close>

definition covering_spans :: "PageGeometry \<Rightarrow> nat \<Rightarrow> nat \<Rightarrow> TextSpan list" where
  "covering_spans pg i n = remdups_adj (take n (drop i (owners (span_words pg))))"

text \<open>
  Modelled from the spec: an exact match on a page (steps 3 and 4).  Every
  occurrence of the quote in the page text is a match, and step 4 gives every
  match its box: the union of the boxes of the spans that cover the first
  occurrence.  Only an empty quote is covered by no span (lemma
  \<open>exact_match_covered\<close> below); its box is the empty box at the origin.
\<close>

definition empty_box :: box where
  "empty_box = \<lparr> bx0 = 0, by0 = 0, bx1 = 0, by1 = 0 \<rparr>"

definition exact_match :: "string \<Rightarrow> PageGeometry \<Rightarrow> box option" where
  "exact_match q pg =
     (case find_sub q (page_text pg) of
        None \<Rightarrow> None
      | Some i \<Rightarrow>
          Some (case union_boxes (map span_box (covering_spans pg i (length q))) of
                  Some b \<Rightarrow> b
                | None \<Rightarrow> empty_box))"

text \<open>
  Modelled from the spec: the approximate match of step 3.  The spec leaves the
  measure of similarity and the threshold open (section 9), so both are
  configuration; the windows are the runs of consecutive spans, by earliest
  start and then by length.
\<close>

record resolver_config =
  threshold :: rat
  similarity :: "string \<Rightarrow> string \<Rightarrow> rat"

definition windows :: "'a list \<Rightarrow> 'a list list" where
  "windows xs =
     concat (map (\<lambda>i. map (\<lambda>n. take n (drop i xs)) [1 ..< length xs - i + 1]) [0 ..< length xs])"

definition approx_match :: "resolver_config \<Rightarrow> string \<Rightarrow> PageGeometry \<Rightarrow> box option" where
  "approx_match cfg q pg =
     (case find (\<lambda>w. threshold cfg \<le> similarity cfg q (join_sp (map fst w)))
             (windows (span_words pg)) of
        None \<Rightarrow> None
      | Some w \<Rightarrow> union_boxes (map (\<lambda>(t, sp). span_box sp) w))"

text \<open>
  Modelled from the spec: the search order of step 2 (the hinted page first,
  then all pages in document order), and \<open>GeometryUnavailable\<close> for a hint that
  names no page of the geometry.
\<close>

datatype resolver_error = GeometryUnavailable

definition search_order ::
  "PageGeometry list \<Rightarrow> nat option \<Rightarrow> resolver_error + PageGeometry list" where
  "search_order geo hint =
     (case hint of
        None \<Rightarrow> Inr geo
      | Some k \<Rightarrow>
          (case find (\<lambda>pg. page_index pg = k) geo of
             None \<Rightarrow> Inl GeometryUnavailable
           | Some pg \<Rightarrow> Inr (pg # geo)))"

fun first_match ::
  "(PageGeometry \<Rightarrow> box option) \<Rightarrow> PageGeometry list \<Rightarrow> (PageGeometry \<times> box) option" where
  "first_match m [] = None"
| "first_match m (pg # pgs) =
     (case m pg of Some b \<Rightarrow> Some (pg, b) | None \<Rightarrow> first_match m pgs)"

text \<open>
  Modelled from the spec: \<open>Citation\<close>, \<open>Comment\<close> and \<open>Highlight\<close> of the data model
  (section 3).  Identifiers are numbers handed out by a counter.
\<close>

record Citation =
  cit_quote :: string
  page_hint :: "nat option"
  cit_highlight_id :: "nat option"

record Comment =
  cm_id :: nat
  cm_reviewer_type :: string
  cm_title :: string
  cm_content :: string
  cm_severity :: string
  cm_page :: "nat option"
  cm_citations :: "Citation list"

record Highlight =
  hl_id :: nat
  hl_page :: nat
  hl_x0 :: real
  hl_y0 :: real
  hl_x1 :: real
  hl_y1 :: real
  hl_width :: real
  hl_height :: real
  hl_comment_id :: nat

text \<open>
  Page \<open>pg\<close> of the geometry holds the quote of a citation: the quote, normalised,
  is a substring of the page's text.
\<close>

definition holds_quote :: "PageGeometry list \<Rightarrow> Citation \<Rightarrow> PageGeometry \<Rightarrow> bool" where
  "holds_quote geo ct pg =
     (pg \<in> set geo \<and> sublist (norm_text (cit_quote ct)) (page_text pg))"

text \<open>
  Modelled from the spec: locating one citation.  An exact match is looked for
  on every page of the search order before any approximate match, the reading
  under which an exactly quoted text is found where it stands.
\<close>

definition locate ::
  "resolver_config \<Rightarrow> PageGeometry list \<Rightarrow> Citation
     \<Rightarrow> resolver_error + (PageGeometry \<times> box) option" where
  "locate cfg geo ct =
     (let q = norm_text (cit_quote ct) in
      case search_order geo (page_hint ct) of
        Inl e \<Rightarrow> Inl e
      | Inr pgs \<Rightarrow>
          Inr (case first_match (exact_match q) pgs of
                 Some r \<Rightarrow> Some r
               | None \<Rightarrow> first_match (approx_match cfg q) pgs))"

text \<open>
  Modelled from the spec: step 4 and 5 for one citation.  A located citation
  gets a highlight with the next free identifier, linked to the comment; an
  unlocated one keeps \<open>highlight_id\<close> null.  The highlight's page is the page's
  index, its width and height are the page's.
\<close>

definition new_highlight :: "nat \<Rightarrow> nat \<Rightarrow> PageGeometry \<Rightarrow> box \<Rightarrow> Highlight" where
  "new_highlight ident cid pg b =
     \<lparr> hl_id = ident, hl_page = page_index pg, hl_x0 = bx0 b, hl_y0 = by0 b,
       hl_x1 = bx1 b, hl_y1 = by1 b, hl_width = pg_width pg, hl_height = pg_height pg,
       hl_comment_id = cid \<rparr>"

definition resolve_citation ::
  "resolver_config \<Rightarrow> PageGeometry list \<Rightarrow> nat \<Rightarrow> nat \<Rightarrow> Citation
     \<Rightarrow> resolver_error + (Citation \<times> Highlight list \<times> nat)" where
  "resolve_citation cfg geo cid next ct =
     (case locate cfg geo ct of
        Inl e \<Rightarrow> Inl e
      | Inr None \<Rightarrow> Inr (ct\<lparr>cit_highlight_id := None\<rparr>, [], next)
      | Inr (Some (pg, b)) \<Rightarrow>
          Inr (ct\<lparr>cit_highlight_id := Some next\<rparr>, [new_highlight next cid pg b], next + 1))"

text \<open>
  Modelled from the spec: \<open>resolve(comment, page_geometry[])\<close>, which resolves
  the citations of a comment in order and returns the comment with its
  citations updated, the highlights and the counter.
\<close>

fun resolve_citations ::
  "resolver_config \<Rightarrow> PageGeometry list \<Rightarrow> nat \<Rightarrow> nat \<Rightarrow> Citation list
     \<Rightarrow> resolver_error + (Citation list \<times> Highlight list \<times> nat)" where
  "resolve_citations cfg geo cid next [] = Inr ([], [], next)"
| "resolve_citations cfg geo cid next (ct # cts) =
     (case resolve_citation cfg geo cid next ct of
        Inl e \<Rightarrow> Inl e
      | Inr (ct', hs, next') \<Rightarrow>
          (case resolve_citations cfg geo cid next' cts of
             Inl e \<Rightarrow> Inl e
           | Inr (cts', hs', next'') \<Rightarrow> Inr (ct' # cts', hs @ hs', next'')))"

definition resolve ::
  "resolver_config \<Rightarrow> PageGeometry list \<Rightarrow> nat \<Rightarrow> Comment
     \<Rightarrow> resolver_error + (Comment \<times> Highlight list \<times> nat)" where
  "resolve cfg geo next c =
     (case resolve_citations cfg geo (cm_id c) next (cm_citations c) of
        Inl e \<Rightarrow> Inl e
      | Inr (cts, hs, next') \<Rightarrow> Inr (c\<lparr>cm_citations := cts\<rparr>, hs, next'))"

text \<open>
  For the properties of \<open>resolve\<close>: citation \<open>ct\<close> of comment \<open>cid\<close>, resolved to
  \<open>ct'\<close> with the highlights \<open>hs\<close>, has its anchor whenever some page holds
  its quote.
\<close>

definition anchor_found ::
  "PageGeometry list \<Rightarrow> nat \<Rightarrow> Citation \<Rightarrow> Citation \<Rightarrow> Highlight list \<Rightarrow> bool" where
  "anchor_found geo cid ct ct' hs =
     (\<forall>pg. holds_quote geo ct pg \<longrightarrow>
        (\<exists>h \<in> set hs. \<exists>pg'. holds_quote geo ct pg'
           \<and> cit_highlight_id ct' = Some (hl_id h)
           \<and> hl_page h = page_index pg' \<and> hl_comment_id h = cid
           \<and> ((\<forall>p. holds_quote geo ct p \<longrightarrow> p = pg) \<longrightarrow> hl_page h = page_index pg)))"

subsection \<open>Review Aggregator\<close>

text \<open>
  Modelled from the spec: \<open>ReviewerResult\<close> and \<open>ReviewResult\<close> of the data model
  (section 3), with the reason of a failure that section 4.3 mentions.
\<close>

datatype Status = pending | completed | failed

record ReviewerResult =
  rr_type :: string
  rr_status :: Status
  rr_summary :: string
  rr_comments :: "Comment list"
  rr_reason :: "string option"

record ReviewResult =
  res_id :: string
  res_title :: string
  page_count :: nat
  res_reviewers :: "ReviewerResult list"
  res_comments :: "Comment list"
  res_highlights :: "Highlight list"

text \<open>
  Modelled from the spec: \<open>build(reviewer_results, geometry)\<close> of section 4.5; the
  aggregator's code is missing.  One counter, passed along, numbers comments
  and highlights; every comment of every reviewer gets the next identifier and
  is resolved once; comments and highlights are appended to two flat lists.
\<close>

fun build_comments ::
  "resolver_config \<Rightarrow> PageGeometry list \<Rightarrow> nat \<Rightarrow> Comment list
     \<Rightarrow> resolver_error + (Comment list \<times> Highlight list \<times> nat)" where
  "build_comments cfg geo next [] = Inr ([], [], next)"
| "build_comments cfg geo next (c # cs) =
     (case resolve cfg geo (next + 1) (c\<lparr>cm_id := next\<rparr>) of
        Inl e \<Rightarrow> Inl e
      | Inr (c', hs, next') \<Rightarrow>
          (case build_comments cfg geo next' cs of
             Inl e \<Rightarrow> Inl e
           | Inr (cs', hs', next'') \<Rightarrow> Inr (c' # cs', hs @ hs', next'')))"

fun build_reviewers ::
  "resolver_config \<Rightarrow> PageGeometry list \<Rightarrow> nat \<Rightarrow> ReviewerResult list
     \<Rightarrow> resolver_error + (ReviewerResult list \<times> Comment list \<times> Highlight list \<times> nat)" where
  "build_reviewers cfg geo next [] = Inr ([], [], [], next)"
| "build_reviewers cfg geo next (r # rs) =
     (case build_comments cfg geo next (rr_comments r) of
        Inl e \<Rightarrow> Inl e
      | Inr (cs, hs, next') \<Rightarrow>
          (case build_reviewers cfg geo next' rs of
             Inl e \<Rightarrow> Inl e
           | Inr (rs', cs', hs', next'') \<Rightarrow>
               Inr (r\<lparr>rr_comments := cs\<rparr> # rs', cs @ cs', hs @ hs', next'')))"

definition build ::
  "resolver_config \<Rightarrow> string \<Rightarrow> string \<Rightarrow> ReviewerResult list \<Rightarrow> PageGeometry list
     \<Rightarrow> resolver_error + ReviewResult" where
  "build cfg rid title reviewer_results geo =
     (case build_reviewers cfg geo 1 reviewer_results of
        Inl e \<Rightarrow> Inl e
      | Inr (rs, cs, hs, next) \<Rightarrow>
          Inr \<lparr> res_id = rid, res_title = title, page_count = length geo,
                res_reviewers = rs, res_comments = cs, res_highlights = hs \<rparr>)"

text \<open>
  Three predicates for the proofs about \<open>build\<close>: the highlights made while the
  counter went from \<open>lo\<close> to \<open>hi\<close> have distinct identifiers in that range; every
  citation that names a highlight names one of \<open>hs\<close>; and both for a list of
  comments with the highlights made for them.
\<close>

definition fresh_highlights :: "nat \<Rightarrow> nat \<Rightarrow> Highlight list \<Rightarrow> bool" where
  "fresh_highlights lo hi hs =
     (lo \<le> hi \<and> distinct (map hl_id hs) \<and> (\<forall>h \<in> set hs. lo \<le> hl_id h \<and> hl_id h < hi))"

definition anchored :: "Citation list \<Rightarrow> Highlight list \<Rightarrow> bool" where
  "anchored cts hs =
     (\<forall>ct \<in> set cts. \<forall>k. cit_highlight_id ct = Some k \<longrightarrow> k \<in> hl_id ` set hs)"

definition comments_ok :: "nat \<Rightarrow> nat \<Rightarrow> Comment list \<Rightarrow> Highlight list \<Rightarrow> bool" where
  "comments_ok lo hi cs hs =
     (fresh_highlights lo hi hs
      \<and> (\<forall>h \<in> set hs. hl_comment_id h \<in> cm_id ` set cs)
      \<and> (\<forall>c \<in> set cs. lo \<le> cm_id c \<and> cm_id c < hi \<and> anchored (cm_citations c) hs))"

subsection \<open>Reviewer Orchestrator\<close>

text \<open>
  Modelled from the spec: a persona (section 3) and what one Reviewer Task does
  when it is left to run (section 4.2): after some time it returns a summary
  with comments, or it gives up with a reason.  The task runner's code is
  missing, so a task is given by its duration and its outcome.
\<close>

record ReviewerPersona =
  persona_type :: string
  display_name :: string
  prompt_template :: string

datatype task_outcome = Returned string "Comment list" | Gave_up string

record task_run =
  run_duration :: nat
  run_outcome :: task_outcome

text \<open>
  Modelled from the spec: the result of a task as the orchestrator records it
  (section 4.3).  A task that exceeds the timeout is marked failed with reason
  timeout, whatever it would have returned.
\<close>

definition pending_result :: "ReviewerPersona \<Rightarrow> ReviewerResult" where
  "pending_result p =
     \<lparr> rr_type = persona_type p, rr_status = pending, rr_summary = [], rr_comments = [],
       rr_reason = None \<rparr>"

definition failed_result :: "ReviewerPersona \<Rightarrow> string \<Rightarrow> ReviewerResult" where
  "failed_result p why =
     \<lparr> rr_type = persona_type p, rr_status = failed, rr_summary = [], rr_comments = [],
       rr_reason = Some why \<rparr>"

definition settle :: "nat \<Rightarrow> ReviewerPersona \<Rightarrow> task_run \<Rightarrow> ReviewerResult" where
  "settle limit p r =
     (if limit < run_duration r then failed_result p ''timeout''
      else case run_outcome r of
             Returned s cs \<Rightarrow>
               \<lparr> rr_type = persona_type p, rr_status = completed, rr_summary = s,
                 rr_comments = cs, rr_reason = None \<rparr>
           | Gave_up why \<Rightarrow> failed_result p why)"

text \<open>
  Modelled from the spec: \<open>run_all\<close> of section 4.3; the orchestrator's code is
  missing.  \<open>runner p\<close> stands for the task of persona \<open>p\<close> on the paper at hand.
  All tasks start pending.  \<open>ended\<close> lists the tasks (by position in the
  persona list) in the order in which they end, by returning or by the timeout;
  the end of a task changes its own slot only, and only once.  The result is
  there (\<open>Some\<close>) once no slot is pending, and the run succeeded if some
  reviewer completed.
\<close>

definition on_task_end ::
  "nat \<Rightarrow> ReviewerPersona list \<Rightarrow> (ReviewerPersona \<Rightarrow> task_run) \<Rightarrow> nat
     \<Rightarrow> ReviewerResult list \<Rightarrow> ReviewerResult list" where
  "on_task_end limit ps runner i slots =
     (if i < length slots \<and> i < length ps \<and> rr_status (slots ! i) = pending
      then slots[i := settle limit (ps ! i) (runner (ps ! i))]
      else slots)"

record run_report =
  results :: "ReviewerResult list"
  succeeded :: bool

definition run_all ::
  "nat \<Rightarrow> ReviewerPersona list \<Rightarrow> (ReviewerPersona \<Rightarrow> task_run) \<Rightarrow> nat list
     \<Rightarrow> run_report option" where
  "run_all limit ps runner ended =
     (let slots = fold (on_task_end limit ps runner) ended (map pending_result ps) in
      if list_all (\<lambda>r. rr_status r \<noteq> pending) slots
      then Some \<lparr> results = slots,
                  succeeded = list_ex (\<lambda>r. rr_status r = completed) slots \<rparr>
      else None)"

text \<open>
  For the proofs: the slots when exactly the tasks in \<open>D\<close> have ended.
\<close>

definition slots_after ::
  "nat \<Rightarrow> ReviewerPersona list \<Rightarrow> (ReviewerPersona \<Rightarrow> task_run) \<Rightarrow> nat set
     \<Rightarrow> ReviewerResult list" where
  "slots_after limit ps runner D =
     map (\<lambda>i. if i \<in> D then settle limit (ps ! i) (runner (ps ! i)) else pending_result (ps ! i))
       [0 ..< length ps]"

subsection \<open>Values for worked examples\<close>

text \<open>
  A measure of similarity that accepts equal texts only; three pages of which
  the last two hold the span of the specification's scenario, and two pages of
  which only the last does; citations and comments; the input and the output
  of an aggregation; five personas with tasks of which two
  fail, and with tasks that all run into the timeout.
\<close>

definition exact_sim :: "string \<Rightarrow> string \<Rightarrow> rat" where
  "exact_sim a b = (if a = b then 1 else 0)"

definition strict_config :: resolver_config where
  "strict_config = \<lparr> threshold = 1, similarity = exact_sim \<rparr>"

definition accuracy_span :: TextSpan where
  "accuracy_span =
     \<lparr> span_text = ''We report a 92% accuracy'', sp_x0 = 10, sp_y0 = 20, sp_x1 = 300, sp_y1 = 35 \<rparr>"

definition page_of :: "nat \<Rightarrow> TextSpan list \<Rightarrow> PageGeometry" where
  "page_of k sps = \<lparr> page_index = k, pg_width = 600, pg_height = 800, spans = sps \<rparr>"

definition three_pages :: "PageGeometry list" where
  "three_pages = [page_of 0 [], page_of 1 [accuracy_span], page_of 2 [accuracy_span]]"

definition accuracy_quote :: "nat option \<Rightarrow> Citation" where
  "accuracy_quote hint = \<lparr> cit_quote = ''92%  Accuracy'', page_hint = hint, cit_highlight_id = None \<rparr>"

definition blank_quote :: Citation where
  "blank_quote = \<lparr> cit_quote = '' '', page_hint = None, cit_highlight_id = None \<rparr>"

definition two_pages :: "PageGeometry list" where
  "two_pages = [page_of 0 [], page_of 1 [accuracy_span]]"

definition missing_quote :: Citation where
  "missing_quote = \<lparr> cit_quote = ''no such text'', page_hint = None, cit_highlight_id = None \<rparr>"

definition parsed_comment :: Comment where
  "parsed_comment =
     \<lparr> cm_id = 0, cm_reviewer_type = ''methodology_reviewer'', cm_title = ''Accuracy'',
       cm_content = ''No confidence interval is given.'', cm_severity = ''major'',
       cm_page = Some 2, cm_citations = [accuracy_quote (Some 2), missing_quote] \<rparr>"

definition cited_comment :: Comment where
  "cited_comment =
     parsed_comment\<lparr> cm_id := 4, cm_citations := [accuracy_quote (Some 1), missing_quote] \<rparr>"

definition badly_hinted_comment :: Comment where
  "badly_hinted_comment =
     parsed_comment\<lparr> cm_id := 4,
       cm_citations := [accuracy_quote (Some 2), accuracy_quote (Some 3)] \<rparr>"

definition two_results :: "ReviewerResult list" where
  "two_results =
     [ \<lparr> rr_type = ''methodology_reviewer'', rr_status = completed, rr_summary = ''Sound.'',
         rr_comments = [parsed_comment], rr_reason = None \<rparr>,
       \<lparr> rr_type = ''novelty_reviewer'', rr_status = failed, rr_summary = [],
         rr_comments = [], rr_reason = Some ''timeout'' \<rparr> ]"

definition built_highlight :: Highlight where
  "built_highlight =
     \<lparr> hl_id = 2, hl_page = 2, hl_x0 = 10, hl_y0 = 20, hl_x1 = 300, hl_y1 = 35,
       hl_width = 600, hl_height = 800, hl_comment_id = 1 \<rparr>"

definition built_comment :: Comment where
  "built_comment =
     parsed_comment\<lparr> cm_id := 1,
       cm_citations := [(accuracy_quote (Some 2))\<lparr>cit_highlight_id := Some 2\<rparr>, missing_quote] \<rparr>"

definition built_review :: ReviewResult where
  "built_review =
     \<lparr> res_id = ''r1'', res_title = ''A paper'', page_count = 3,
       res_reviewers =
         [ \<lparr> rr_type = ''methodology_reviewer'', rr_status = completed, rr_summary = ''Sound.'',
             rr_comments = [built_comment], rr_reason = None \<rparr>,
           \<lparr> rr_type = ''novelty_reviewer'', rr_status = failed, rr_summary = [],
             rr_comments = [], rr_reason = Some ''timeout'' \<rparr> ],
       res_comments = [built_comment], res_highlights = [built_highlight] \<rparr>"

definition five_personas :: "ReviewerPersona list" where
  "five_personas =
     map (\<lambda>(t, n). \<lparr> persona_type = t, display_name = n, prompt_template = [] \<rparr>)
       [ (''editor_overview'', ''Editor Overview''),
         (''methodology_reviewer'', ''Methodology''),
         (''novelty_reviewer'', ''Novelty''),
         (''clarity_reviewer'', ''Clarity & Writing''),
         (''reproducibility_reviewer'', ''Reproducibility'') ]"

definition two_fail :: "ReviewerPersona \<Rightarrow> task_run" where
  "two_fail p =
     (if persona_type p = ''novelty_reviewer'' then
        \<lparr> run_duration = 500, run_outcome = Returned ''Late.'' [] \<rparr>
      else if persona_type p = ''clarity_reviewer'' then
        \<lparr> run_duration = 7, run_outcome = Gave_up ''malformed output'' \<rparr>
      else \<lparr> run_duration = 30, run_outcome = Returned ''Fine.'' [] \<rparr>)"

definition all_fail :: "ReviewerPersona \<Rightarrow> task_run" where
  "all_fail p = \<lparr> run_duration = 500, run_outcome = Returned ''Late.'' [] \<rparr>"

section \<open>Properties of the front end\<close>

subsection \<open>Uploading\<close>

lemma alert_frame:
  "requests (alert m s) = requests s \<and> reviewId (alert m s) = reviewId s
   \<and> reviewData (alert m s) = reviewData s \<and> pdfUrl (alert m s) = pdfUrl s"
  by (simp add: alert_def)

text \<open>
  Claim C9.  When no file is given, or the file's name does not end in
  \<^verbatim>\<open>.pdf\<close>, \<^verbatim>\<open>handleFileUpload\<close> (in both versions of the component) sends no
  request and leaves \<^verbatim>\<open>reviewId\<close>, \<^verbatim>\<open>reviewData\<close> and \<^verbatim>\<open>pdfUrl\<close> as they
  were; it only shows the alert.
\<close>

theorem handleFileUpload_rejects_non_pdf:
  assumes "fl = None \<or> (\<exists>f. fl = Some f \<and> \<not> endsWith (f_name f) ''.pdf'')"
  shows "requests (handleFileUpload a srv fl s) = requests s
       \<and> reviewId (handleFileUpload a srv fl s) = reviewId s
       \<and> reviewData (handleFileUpload a srv fl s) = reviewData s
       \<and> pdfUrl (handleFileUpload a srv fl s) = pdfUrl s
       \<and> requests (App_handleFileUpload srv fl s) = requests s
       \<and> reviewId (App_handleFileUpload srv fl s) = reviewId s
       \<and> reviewData (App_handleFileUpload srv fl s) = reviewData s
       \<and> pdfUrl (App_handleFileUpload srv fl s) = pdfUrl s"
proof -
  have "handleFileUpload a srv fl s = alert ''Please upload a PDF file'' s"
    using assms by (auto simp: handleFileUpload_def)
  moreover have "App_handleFileUpload srv fl s = alert ''Please upload a PDF file'' s"
    using assms by (auto simp: App_handleFileUpload_def)
  ultimately show ?thesis
    by (simp only: alert_frame)
qed

theorem handleFileUpload_rejects_non_pdf_witness:
  "\<not> endsWith (f_name \<lparr>f_name = ''notes.txt''\<rparr>) ''.pdf''
   \<and> requests (handleFileUpload signed_out offline (Some \<lparr>f_name = ''notes.txt''\<rparr>) initial_state) = []
   \<and> reviewId (handleFileUpload signed_out offline (Some \<lparr>f_name = ''notes.txt''\<rparr>) initial_state) = None
   \<and> pdfUrl (App_handleFileUpload offline None initial_state) = None
   \<and> requests (App_handleFileUpload offline None initial_state) = []"
  using handleFileUpload_rejects_non_pdf
          [where fl = "Some \<lparr>f_name = ''notes.txt''\<rparr>" and a = signed_out and srv = offline
             and s = initial_state]
        handleFileUpload_rejects_non_pdf
          [where fl = None and a = signed_out and srv = offline and s = initial_state]
  by (simp add: endsWith_def initial_state_def)

text \<open>For comparison: a file named \<^verbatim>\<open>paper.pdf\<close> does lead to the upload request.\<close>

lemma handleFileUpload_pdf_sends_upload:
  "requests (handleFileUpload signed_out offline (Some \<lparr>f_name = ''paper.pdf''\<rparr>) initial_state)
     = [Post UploadUrl (Some \<lparr>f_name = ''paper.pdf''\<rparr>)]"
  by (simp add: handleFileUpload_def endsWith_def canReview_def signed_out_def try_block_def
        offline_def catch_block_def alert_def finally_block_def initial_state_def)

subsection \<open>Page navigation\<close>

text \<open>
  Claim C8.  For every integer \<open>p\<close>, \<^verbatim>\<open>goToPage(p)\<close> sets the current page to
  \<open>max 1 (min p numPages)\<close>, where \<^verbatim>\<open>numPages\<close> counts as 1 while the document
  is not loaded.  The page shown is therefore at least 1, and at most the page
  count of a loaded document (which has at least one page).
\<close>

theorem goToPage_clamps:
  "currentPage (goToPage p s) = max 1 (min p (case numPages s of None \<Rightarrow> 1 | Some n \<Rightarrow> n))
   \<and> 1 \<le> currentPage (goToPage p s)
   \<and> (\<forall>n. numPages s = Some n \<and> 1 \<le> n \<longrightarrow> currentPage (goToPage p s) \<le> n)
   \<and> (numPages s = None \<longrightarrow> currentPage (goToPage p s) = 1)"
  by (auto simp: goToPage_def numPages_or_1_def split: option.splits)

theorem goToPage_clamps_witness:
  "numPages review_screen = Some 12 \<and> (1::int) \<le> 12
   \<and> currentPage (goToPage 40 review_screen) = 12
   \<and> currentPage (goToPage (- 3) review_screen) = 1
   \<and> currentPage (goToPage 5 review_screen) = 5"
  using goToPage_clamps [of 40 review_screen] goToPage_clamps [of "- 3" review_screen]
        goToPage_clamps [of 5 review_screen]
  by (simp add: review_screen_def initial_state_def)

subsection \<open>Clicking a comment\<close>

text \<open>
  Claim C6.  Clicking a comment that has at least one highlight rect sets the
  current page to the page of its first rect and makes that rect the active
  highlight.  Clicking a comment without highlight rects (none, or an empty
  list) that has a page number goes to that page.  Pages are numbered from 1, so
  a page number is not 0.
\<close>

theorem navigateToHighlight_jumps:
  "(\<forall>h hs. highlight_rects c = Some (h # hs) \<longrightarrow>
      currentPage (navigateToHighlight c s) = h_page h
      \<and> activeHighlight (navigateToHighlight c s) = Some (h_id h))
   \<and> (\<forall>p. (highlight_rects c = None \<or> highlight_rects c = Some [])
            \<and> c_page c = Some p \<and> p \<noteq> 0 \<longrightarrow>
      currentPage (navigateToHighlight c s) = p)"
  by (auto simp: navigateToHighlight_def split: option.splits list.splits)

theorem navigateToHighlight_jumps_witness:
  "highlight_rects sample_comment = Some (sample_highlight # [])
   \<and> currentPage (navigateToHighlight sample_comment initial_state) = 2
   \<and> activeHighlight (navigateToHighlight sample_comment initial_state) = Some (IdNum 7)
   \<and> highlight_rects (sample_comment\<lparr>highlight_rects := Some []\<rparr>) = Some []
   \<and> c_page (sample_comment\<lparr>highlight_rects := Some []\<rparr>) = Some 4
   \<and> currentPage (navigateToHighlight (sample_comment\<lparr>highlight_rects := Some []\<rparr>) initial_state) = 4"
  using navigateToHighlight_jumps [of sample_comment initial_state]
        navigateToHighlight_jumps [of "sample_comment\<lparr>highlight_rects := Some []\<rparr>" initial_state]
  by (simp add: sample_comment_def sample_highlight_def)

subsection \<open>Clicking a citation without a highlight\<close>

lemma citations_list_shows:
  assumes "citations c = Some cs" "cit \<in> set cs"
  shows "citation_item_of cit \<in> set (citations_list c)"
proof (cases cs)
  case Nil
  with assms(2) show ?thesis by simp
next
  case (Cons x xs)
  with assms(1) have "citations_list c = map citation_item_of cs"
    by (simp add: citations_list_def)
  with assms(2) show ?thesis by simp
qed

text \<open>
  Claim C7.  A citation whose \<^verbatim>\<open>highlight_id\<close> is \<^verbatim>\<open>null\<close> is shown like any
  other citation of its comment (quote and page; the item has no part that
  depends on \<^verbatim>\<open>highlight_id\<close>), and a click on it raises no error and changes
  nothing: not the current page, not the active highlight, and the click does
  not reach the comment card either.
\<close>

theorem null_citation_click:
  assumes "highlight_id cit = None"
  shows "click_citation c cit s = Inr s
       \<and> (\<forall>cs. citations c = Some cs \<and> cit \<in> set cs \<longrightarrow>
             citation_item_of cit \<in> set (citations_list c))
       \<and> citation_item_of (cit\<lparr>highlight_id := k\<rparr>) = citation_item_of cit"
proof -
  have "click_citation c cit s = Inr s"
    using assms by (simp add: click_citation_def citation_onClick_def)
  moreover have "citation_item_of (cit\<lparr>highlight_id := k\<rparr>) = citation_item_of cit"
    by (simp add: citation_item_of_def)
  ultimately show ?thesis
    using citations_list_shows by blast
qed

text \<open>For comparison: a citation that names the sample highlight does navigate.\<close>

lemma anchored_citation_click:
  "click_citation sample_comment (sample_citation\<lparr>highlight_id := Some (IdNum 7)\<rparr>) review_screen
     = Inr (review_screen\<lparr>currentPage := 2, activeHighlight := Some (IdNum 7),
                           timeouts := [2000]\<rparr>)"
  by (simp add: click_citation_def citation_onClick_def review_screen_def initial_state_def
        sample_review_def sample_highlight_def sample_citation_def)

theorem null_citation_click_witness:
  "highlight_id sample_citation = None
   \<and> click_citation sample_comment sample_citation review_screen = Inr review_screen
   \<and> citations sample_comment = Some [sample_citation]
   \<and> citations_list sample_comment =
        [\<lparr> ci_quote = [CHR 0x22] @ ''We report a 92% accuracy...'' @ [CHR 0x22], ci_page = Some 2 \<rparr>]"
  using null_citation_click [of sample_citation sample_comment review_screen None]
  by (simp add: sample_citation_def sample_comment_def citations_list_def citation_item_of_def)

subsection \<open>The highlights layer\<close>

lemma pdf_highlight_scale:
  "pdf_highlight (s\<lparr>scale := z\<rparr>) = pdf_highlight s"
  "pdf_highlight (s\<lparr>pageSize := ps\<rparr>) = pdf_highlight s"
  by (rule ext, simp add: pdf_highlight_def)+

lemma highlights_layer_scale:
  "highlights_layer (s\<lparr>scale := z\<rparr>) = highlights_layer s"
  "highlights_layer (s\<lparr>pageSize := ps\<rparr>) = highlights_layer s"
  by (simp_all add: highlights_layer_def pdf_highlight_scale getCurrentPageHighlights_def
        split: option.splits)

text \<open>
  Claim C4.  Every highlight of the current page is drawn, and its rectangle has
  left \<open>x0 / width\<close>, top \<open>y0 / height\<close>, width \<open>(x1 - x0) / width\<close> and height
  \<open>(y1 - y0) / height\<close>, each times 100 as a percentage, where \<open>width\<close> and
  \<open>height\<close> are those of the highlight record (not 0).  The layer does not
  depend on the zoom level, whatever it is set to and after either zoom button,
  nor on the size the page reported when it was loaded.
\<close>

theorem highlight_overlay_position:
  assumes "h \<in> set (getCurrentPageHighlights s)" "h_width h \<noteq> 0" "h_height h \<noteq> 0"
  shows "pdf_highlight s h \<in> set (highlights_layer s)
       \<and> ov_left (pdf_highlight s h) = Some (x0 h / h_width h * 100)
       \<and> ov_top (pdf_highlight s h) = Some (y0 h / h_height h * 100)
       \<and> ov_width (pdf_highlight s h) = Some ((x1 h - x0 h) / h_width h * 100)
       \<and> ov_height (pdf_highlight s h) = Some ((y1 h - y0 h) / h_height h * 100)
       \<and> highlights_layer (s\<lparr>scale := z\<rparr>) = highlights_layer s
       \<and> highlights_layer (zoom_in s) = highlights_layer s
       \<and> highlights_layer (zoom_out s) = highlights_layer s
       \<and> highlights_layer (s\<lparr>pageSize := ps\<rparr>) = highlights_layer s"
proof -
  have "pdf_highlight s h \<in> set (highlights_layer s)"
    using assms(1) by (simp add: highlights_layer_def)
  moreover have "ov_left (pdf_highlight s h) = Some (x0 h / h_width h * 100)"
    and "ov_top (pdf_highlight s h) = Some (y0 h / h_height h * 100)"
    and "ov_width (pdf_highlight s h) = Some ((x1 h - x0 h) / h_width h * 100)"
    and "ov_height (pdf_highlight s h) = Some ((y1 h - y0 h) / h_height h * 100)"
    using assms(2,3) by (simp_all add: pdf_highlight_def percent_def)
  moreover have "highlights_layer (zoom_in s) = highlights_layer s"
    and "highlights_layer (zoom_out s) = highlights_layer s"
    by (simp_all only: zoom_in_def zoom_out_def highlights_layer_scale)
  ultimately show ?thesis
    by (simp only: highlights_layer_scale simp_thms)
qed

theorem highlight_overlay_position_witness:
  "sample_highlight \<in> set (getCurrentPageHighlights review_screen)
   \<and> h_width sample_highlight \<noteq> 0 \<and> h_height sample_highlight \<noteq> 0
   \<and> highlights_layer (review_screen\<lparr>scale := 2\<rparr>) =
        [\<lparr> ov_active = False, ov_left = Some (5 / 3), ov_top = Some (5 / 2),
           ov_width = Some (145 / 3), ov_height = Some (15 / 8) \<rparr>]"
  using highlight_overlay_position [of sample_highlight review_screen 2]
  by (simp add: review_screen_def initial_state_def sample_review_def sample_highlight_def
        getCurrentPageHighlights_def highlights_layer_def pdf_highlight_def percent_def)

subsection \<open>The list of reviewers\<close>

lemma find_distinct_key:
  assumes "distinct (map f xs)" "x \<in> set xs"
  shows "find (\<lambda>y. f y = f x) xs = Some x"
  using assms by (induction xs) auto

lemma find_perm:
  assumes "distinct (map f xs)" "mset ys = mset xs"
  shows "find (\<lambda>y. f y = t) ys = find (\<lambda>y. f y = t) xs"
proof -
  have sets: "set ys = set xs"
    using assms(2) by (rule mset_eq_setD)
  have "mset (map f ys) = mset (map f xs)"
    using assms(2) by simp
  then have dy: "distinct (map f ys)"
    using assms(1) mset_eq_imp_distinct_iff by blast
  show ?thesis
  proof (cases "\<exists>x\<in>set xs. f x = t")
    case True
    then obtain x where x: "x \<in> set xs" "f x = t" by blast
    then have "x \<in> set ys" using sets by simp
    from find_distinct_key[OF dy this] find_distinct_key[OF assms(1) x(1)] x(2)
    show ?thesis by simp
  next
    case False
    then have "find (\<lambda>y. f y = t) xs = None" by (simp add: find_None_iff)
    moreover have "find (\<lambda>y. f y = t) ys = None" using False sets by (simp add: find_None_iff)
    ultimately show ?thesis by simp
  qed
qed

lemma reviewer_item_perm:
  assumes "distinct (map r_type rs)" "mset rs' = mset rs"
  shows "reviewer_item_of (s\<lparr>reviewData := Some (rd\<lparr>rd_reviewers := Some rs'\<rparr>)\<rparr>) p
       = reviewer_item_of (s\<lparr>reviewData := Some (rd\<lparr>rd_reviewers := Some rs\<rparr>)\<rparr>) p"
  using find_perm[OF assms, of "p_type p"]
  by (simp add: reviewer_item_of_def reviewerData_def)

text \<open>
  Claim C5.  The sidebar lists the reviewers in the configured order
  (editor\_overview, methodology\_reviewer, novelty\_reviewer, clarity\_reviewer,
  reproducibility\_reviewer) whatever the review data holds, and the whole list
  (names, counts, completion marks) is the same for every order in which the
  server returns the reviewers' results, their types being distinct.
\<close>

theorem reviewer_list_in_persona_order:
  "map item_key (reviewer_list s) =
     [''editor_overview'', ''methodology_reviewer'', ''novelty_reviewer'',
      ''clarity_reviewer'', ''reproducibility_reviewer'']
   \<and> (\<forall>rs'. distinct (map r_type rs) \<and> mset rs' = mset rs \<longrightarrow>
         reviewer_list (s\<lparr>reviewData := Some (rd\<lparr>rd_reviewers := Some rs'\<rparr>)\<rparr>)
           = reviewer_list (s\<lparr>reviewData := Some (rd\<lparr>rd_reviewers := Some rs\<rparr>)\<rparr>))"
proof -
  have "map item_key (reviewer_list s) =
     [''editor_overview'', ''methodology_reviewer'', ''novelty_reviewer'',
      ''clarity_reviewer'', ''reproducibility_reviewer'']"
    by (simp add: reviewer_list_def reviewers_def reviewer_item_of_def)
  moreover have "reviewer_list (s\<lparr>reviewData := Some (rd\<lparr>rd_reviewers := Some rs'\<rparr>)\<rparr>)
           = reviewer_list (s\<lparr>reviewData := Some (rd\<lparr>rd_reviewers := Some rs\<rparr>)\<rparr>)"
    if "distinct (map r_type rs)" "mset rs' = mset rs" for rs'
    using reviewer_item_perm[OF that] by (simp add: reviewer_list_def)
  ultimately show ?thesis by blast
qed

theorem reviewer_list_in_persona_order_witness:
  "distinct (map r_type sample_reviewers)
   \<and> mset (rev sample_reviewers) = mset sample_reviewers
   \<and> reviewer_list (review_screen\<lparr>reviewData := Some (sample_review\<lparr>rd_reviewers := Some (rev sample_reviewers)\<rparr>)\<rparr>)
       = reviewer_list (review_screen\<lparr>reviewData := Some (sample_review\<lparr>rd_reviewers := Some sample_reviewers\<rparr>)\<rparr>)
   \<and> map item_key (reviewer_list review_screen) =
     [''editor_overview'', ''methodology_reviewer'', ''novelty_reviewer'',
      ''clarity_reviewer'', ''reproducibility_reviewer'']
   \<and> map isCompleted (reviewer_list review_screen) = [False, False, True, False, False]"
proof -
  have d: "distinct (map r_type sample_reviewers)"
    by (simp add: sample_reviewers_def)
  have c: "map isCompleted (reviewer_list review_screen) = [False, False, True, False, False]"
    by (simp add: reviewer_list_def reviewers_def reviewer_item_of_def reviewerData_def
          review_screen_def sample_review_def sample_reviewers_def)
  have m: "mset (rev sample_reviewers) = mset sample_reviewers"
    by simp
  note t = reviewer_list_in_persona_order [of review_screen sample_reviewers sample_review]
  have k: "map item_key (reviewer_list review_screen) =
     [''editor_overview'', ''methodology_reviewer'', ''novelty_reviewer'',
      ''clarity_reviewer'', ''reproducibility_reviewer'']"
    by (rule conjunct1 [OF t])
  have p: "reviewer_list (review_screen\<lparr>reviewData := Some (sample_review\<lparr>rd_reviewers := Some (rev sample_reviewers)\<rparr>)\<rparr>)
       = reviewer_list (review_screen\<lparr>reviewData := Some (sample_review\<lparr>rd_reviewers := Some sample_reviewers\<rparr>)\<rparr>)"
    by (rule conjunct2 [OF t, rule_format]) (rule conjI [OF d m])
  show ?thesis
    by (intro conjI d m p k c)
qed

section \<open>Properties of the usage counter\<close>

lemma find_append_new:
  "find P xs = None \<Longrightarrow> P x \<Longrightarrow> find P (xs @ [x]) = Some x"
  by (induction xs) (auto split: if_splits)

lemma find_do_update:
  assumes "find (same_user_month p m) rs = Some r" "same_user_month p m (f r)"
  shows "find (same_user_month p m) (do_update p m f rs) = Some (f r)"
  using assms by (induction rs) (auto split: if_splits)

text \<open>
  Claim C10, amended.  For a user of \<^verbatim>\<open>auth.users\<close> whose row for the current
  month, if there is one, holds a \<^verbatim>\<open>review_count\<close> that is not \<^verbatim>\<open>NULL\<close> and
  is below 2147483647: \<^verbatim>\<open>increment_usage\<close> succeeds, and \<^verbatim>\<open>get_monthly_usage\<close>
  afterwards, in the same month, returns one more than it returned before (0
  before the first increment, when there is no row).
\<close>

theorem increment_usage_adds_one:
  assumes user: "u \<in> set (auth_users d)"
      and same: "to_char_YYYY_MM t1 = to_char_YYYY_MM t0" "to_char_YYYY_MM t2 = to_char_YYYY_MM t0"
      and row: "\<forall>r \<in> set (usage d). same_user_month (Some u) (to_char_YYYY_MM t0) r \<longrightarrow>
                 (\<exists>n. review_count r = Some n \<and> - 2147483648 \<le> n \<and> n < 2147483647)"
  shows "\<exists>d'. increment_usage (Some u) t1 d = Inr d'
            \<and> get_monthly_usage (Some u) t2 d' = get_monthly_usage (Some u) t0 d + 1"
proof (cases "find (same_user_month (Some u) (to_char_YYYY_MM t0)) (usage d)")
  case None
  have "same_user_month (Some u) (to_char_YYYY_MM t0)
          \<lparr> u_user_id = Some u, u_month = to_char_YYYY_MM t0, review_count = Some 1,
            created_at = t1, updated_at = t1 \<rparr>"
    by (simp add: same_user_month_def)
  from find_append_new[OF None this] None user same show ?thesis
    by (simp add: increment_usage_def get_monthly_usage_def)
next
  case (Some r)
  then have r: "r \<in> set (usage d)" "same_user_month (Some u) (to_char_YYYY_MM t0) r"
    by (auto simp: find_Some_iff)
  with row obtain n where n: "review_count r = Some n" "- 2147483648 \<le> n" "n < 2147483647"
    by blast
  have "same_user_month (Some u) (to_char_YYYY_MM t0)
          (r\<lparr>review_count := Some (n + 1), updated_at := t1\<rparr>)"
    using r(2) by (simp add: same_user_month_def)
  from find_do_update[OF Some, of "\<lambda>r. r\<lparr>review_count := Some (n + 1), updated_at := t1\<rparr>", OF this]
    Some n same show ?thesis
    by (simp add: increment_usage_def get_monthly_usage_def int4pl_def)
qed

lemma to_char_jan: "to_char_YYYY_MM jan5 = ''2026-01''" "to_char_YYYY_MM jan9 = ''2026-01''"
  by (simp_all add: to_char_YYYY_MM_def zero_padded_def decimal.simps jan5_def jan9_def digit_def)

theorem increment_usage_adds_one_witness:
  "''u1'' \<in> set (auth_users (usage_of (Some 2)))
   \<and> to_char_YYYY_MM jan9 = to_char_YYYY_MM jan5
   \<and> get_monthly_usage (Some ''u1'') jan5 (usage_of (Some 2)) = 2
   \<and> (\<exists>d'. increment_usage (Some ''u1'') jan9 (usage_of (Some 2)) = Inr d'
          \<and> get_monthly_usage (Some ''u1'') jan9 d' = 3)
   \<and> get_monthly_usage (Some ''u1'') jan5 no_usage = 0
   \<and> (\<exists>d'. increment_usage (Some ''u1'') jan9 no_usage = Inr d'
          \<and> get_monthly_usage (Some ''u1'') jan9 d' = 1)"
proof -
  have g: "get_monthly_usage (Some ''u1'') jan5 (usage_of (Some 2)) = 2"
          "get_monthly_usage (Some ''u1'') jan5 no_usage = 0"
    by (simp_all add: get_monthly_usage_def usage_of_def no_usage_def to_char_jan same_user_month_def)
  have h: "\<forall>r \<in> set (usage (usage_of (Some 2))).
             same_user_month (Some ''u1'') (to_char_YYYY_MM jan5) r \<longrightarrow>
               (\<exists>n. review_count r = Some n \<and> - 2147483648 \<le> n \<and> n < 2147483647)"
          "\<forall>r \<in> set (usage no_usage).
             same_user_month (Some ''u1'') (to_char_YYYY_MM jan5) r \<longrightarrow>
               (\<exists>n. review_count r = Some n \<and> - 2147483648 \<le> n \<and> n < 2147483647)"
    by (simp_all add: usage_of_def no_usage_def)
  have u: "''u1'' \<in> set (auth_users (usage_of (Some 2)))" "''u1'' \<in> set (auth_users no_usage)"
    by (simp_all add: usage_of_def no_usage_def)
  have m: "to_char_YYYY_MM jan9 = to_char_YYYY_MM jan5"
    by (simp add: to_char_jan)
  show ?thesis
    using increment_usage_adds_one [OF u(1) m m h(1)] increment_usage_adds_one [OF u(2) m m h(2)]
          g u(1) m
    by simp
qed

text \<open>
  Claim C10 as stated fails on two rows the schema admits.  With a count of
  2147483647 the increment raises (the sum is no \<^verbatim>\<open>INTEGER\<close>); with a count of
  \<^verbatim>\<open>NULL\<close> the sum is \<^verbatim>\<open>NULL\<close> again, and the usage reads 0 before and after.
\<close>

theorem increment_usage_counterexample:
  "increment_usage (Some ''u1'') jan9 (usage_of (Some 2147483647)) = Inl numeric_value_out_of_range
   \<and> get_monthly_usage (Some ''u1'') jan5 (usage_of None) = 0
   \<and> increment_usage (Some ''u1'') jan9 (usage_of None)
       = Inr \<lparr> auth_users = [''u1''],
               usage = [\<lparr> u_user_id = Some ''u1'', u_month = ''2026-01'', review_count = None,
                          created_at = jan5, updated_at = jan9 \<rparr>] \<rparr>
   \<and> get_monthly_usage (Some ''u1'') jan9
        \<lparr> auth_users = [''u1''],
          usage = [\<lparr> u_user_id = Some ''u1'', u_month = ''2026-01'', review_count = None,
                     created_at = jan5, updated_at = jan9 \<rparr>] \<rparr> = 0"
  by (simp add: increment_usage_def get_monthly_usage_def usage_of_def to_char_jan
        same_user_month_def int4pl_def)


section \<open>Properties of the modelled pipeline\<close>

subsection \<open>Citation Resolver\<close>

lemma find_sub_complete:
  "sublist q t \<Longrightarrow> \<exists>i. find_sub q t = Some i \<and> i + length q \<le> length t"
proof (induction t)
  case Nil
  then show ?case by simp
next
  case (Cons y ys)
  show ?case
  proof (cases "prefix q (y # ys)")
    case True
    then show ?thesis using prefix_length_le[OF True] by simp
  next
    case False
    with Cons.prems have "sublist q ys" by (simp add: sublist_Cons_right)
    with Cons.IH False show ?thesis by auto
  qed
qed

lemma find_sub_sound:
  "find_sub q t = Some i \<Longrightarrow> sublist q t"
proof (induction t arbitrary: i)
  case Nil
  then show ?case by (simp split: if_splits)
next
  case (Cons y ys)
  then show ?case
    by (auto simp: sublist_Cons_right split: if_splits)
qed

lemma sublist_find_sub: "sublist q t \<longleftrightarrow> find_sub q t \<noteq> None"
  using find_sub_complete find_sub_sound by fastforce

text \<open>
  The page text is the words of the spans that have text, joined with spaces.
\<close>

lemma split_acc_sep:
  "split_acc cur (a @ CHR '' '' # b) = split_acc cur a @ split_acc [] b"
  by (induction a arbitrary: cur) (simp_all add: is_space_def)

lemma split_acc_nonempty:
  "w \<in> set (split_acc cur s) \<Longrightarrow> w \<noteq> []"
  by (induction s arbitrary: cur) (auto split: if_splits)

lemma split_ws_join:
  "split_ws (join_sp ts) = concat (map split_ws ts)"
proof (induction ts rule: join_sp.induct)
  case 1
  then show ?case by (simp add: split_ws_def)
next
  case (2 w)
  then show ?case by simp
next
  case (3 w v vs)
  then show ?case
    by (simp add: split_ws_def split_acc_sep)
qed

lemma to_lower_space: "to_lower (CHR '' '') = CHR '' ''"
  by (simp add: to_lower_def)

lemma map_lower_join:
  "map to_lower (join_sp ts) = join_sp (map (map to_lower) ts)"
  by (induction ts rule: join_sp.induct) (simp_all add: to_lower_space)

lemma join_sp_append:
  "join_sp (ws @ vs) =
     (if ws = [] then join_sp vs else if vs = [] then join_sp ws
      else join_sp ws @ CHR '' '' # join_sp vs)"
proof (induction ws rule: join_sp.induct)
  case 1
  then show ?case by simp
next
  case (2 w)
  then show ?case by (cases vs) simp_all
next
  case (3 w v va)
  then show ?case by simp
qed

lemma join_sp_Nil_iff:
  "\<forall>w \<in> set ws. w \<noteq> [] \<Longrightarrow> join_sp ws = [] \<longleftrightarrow> ws = []"
  by (induction ws rule: join_sp.induct) simp_all

lemma join_concat_words:
  assumes "\<forall>ws \<in> set wss. \<forall>w \<in> set ws. w \<noteq> []"
  shows "join_sp (concat wss) = join_sp (filter (\<lambda>t. t \<noteq> []) (map join_sp wss))"
  using assms
proof (induction wss)
  case Nil
  then show ?case by simp
next
  case (Cons ws wss)
  then have ih: "join_sp (concat wss) = join_sp (filter (\<lambda>t. t \<noteq> []) (map join_sp wss))"
    by simp
  have ne: "\<forall>w \<in> set ws. w \<noteq> []" "\<forall>w \<in> set (concat wss). w \<noteq> []"
    using Cons.prems by auto
  have f: "\<forall>t \<in> set (filter (\<lambda>t. t \<noteq> []) (map join_sp wss)). t \<noteq> []"
    by simp
  show ?case
  proof (cases "ws = []")
    case True
    then show ?thesis using ih by simp
  next
    case False
    then have j: "join_sp ws \<noteq> []"
      using join_sp_Nil_iff[OF ne(1)] by simp
    have "concat wss = [] \<longleftrightarrow> filter (\<lambda>t. t \<noteq> []) (map join_sp wss) = []"
      using join_sp_Nil_iff[OF ne(2)] join_sp_Nil_iff[OF f] ih by simp
    then show ?thesis
      using False j ih
      by (cases "filter (\<lambda>t. t \<noteq> []) (map join_sp wss)")
         (simp_all add: join_sp_append)
  qed
qed

lemma page_text_words:
  "page_text pg = join_sp (map fst (span_words pg))"
proof -
  let ?ts = "map span_text (spans pg)"
  have "page_text pg = join_sp (concat (map (\<lambda>t. split_ws (map to_lower t)) ?ts))"
    by (simp add: page_text_def norm_text_def map_lower_join split_ws_join comp_def)
  also have "\<dots> = join_sp (filter (\<lambda>t. t \<noteq> []) (map join_sp (map (\<lambda>t. split_ws (map to_lower t)) ?ts)))"
    by (rule join_concat_words) (auto simp: split_ws_def dest: split_acc_nonempty)
  also have "\<dots> = join_sp (map fst (span_words pg))"
    by (simp add: span_words_def norm_text_def comp_def filter_map case_prod_unfold)
  finally show ?thesis .
qed

lemma length_owners:
  "length (join_sp (map fst ws)) \<le> length (owners ws)"
proof (induction ws)
  case Nil
  then show ?case by (simp add: owners_def)
next
  case (Cons w ws)
  then show ?case
    by (cases ws; cases w) (auto simp: owners_def)
qed

text \<open>
  A quote has an exact match on a page exactly when it is a substring of the
  page text, and some span covers the match unless the quote is empty.
\<close>

lemma exact_match_iff:
  "(exact_match q pg \<noteq> None) = sublist q (page_text pg)"
  by (simp add: exact_match_def sublist_find_sub split: option.splits)

lemma exact_match_covered:
  assumes "q \<noteq> []" "find_sub q (page_text pg) = Some i"
  shows "covering_spans pg i (length q) \<noteq> []"
proof -
  from find_sub_complete[OF find_sub_sound[OF assms(2)]] assms(2)
  have "i + length q \<le> length (page_text pg)" by simp
  then have "i < length (owners (span_words pg))"
    using assms(1) length_owners[of "span_words pg"]
    by (cases q) (simp_all add: page_text_words)
  then have "take (length q) (drop i (owners (span_words pg))) \<noteq> []"
    using assms(1) by simp
  then show ?thesis
    by (simp add: covering_spans_def)
qed

lemma first_match_find:
  assumes "find (\<lambda>p. m p \<noteq> None) pgs = Some pg"
  shows "\<exists>b. first_match m pgs = Some (pg, b)"
  using assms by (induction pgs) (auto split: if_splits option.splits)

text \<open>
  A hint that names a page of the geometry gives a search order over the pages
  of the geometry, and then a citation is resolved without an error.
\<close>

lemma search_order_ok:
  assumes "page_hint ct = None \<or> (\<exists>p \<in> set geo. page_hint ct = Some (page_index p))"
  shows "\<exists>pgs. search_order geo (page_hint ct) = Inr pgs \<and> set pgs = set geo"
proof (cases "page_hint ct")
  case None
  then show ?thesis by (simp add: search_order_def)
next
  case (Some k)
  with assms obtain p where "p \<in> set geo" "page_index p = k" by auto
  then have "find (\<lambda>pg. page_index pg = k) geo \<noteq> None"
    by (auto simp: find_None_iff)
  then obtain p' where p': "find (\<lambda>pg. page_index pg = k) geo = Some p'" by auto
  then have "p' \<in> set geo"
    by (auto simp: find_Some_iff)
  with Some p' show ?thesis by (auto simp: search_order_def)
qed

lemma resolve_citation_total:
  assumes "page_hint ct = None \<or> (\<exists>p \<in> set geo. page_hint ct = Some (page_index p))"
  shows "\<exists>ct' hs n. resolve_citation cfg geo cid k ct = Inr (ct', hs, n)"
proof -
  from search_order_ok[OF assms] obtain pgs where "search_order geo (page_hint ct) = Inr pgs"
    by blast
  then obtain r where r: "locate cfg geo ct = Inr r"
    by (simp add: locate_def Let_def)
  show ?thesis
  proof (cases r)
    case None
    with r show ?thesis by (simp add: resolve_citation_def)
  next
    case (Some pb)
    with r show ?thesis by (cases pb) (simp add: resolve_citation_def)
  qed
qed

text \<open>
  A citation whose quote stands on some page gets the next identifier, and its
  highlight is on the first page in search order that holds the quote.
\<close>

lemma resolve_citation_exact:
  assumes hint: "page_hint ct = None \<or> (\<exists>p \<in> set geo. page_hint ct = Some (page_index p))"
      and pg: "holds_quote geo ct pg"
  shows "\<exists>pgs pg' h.
           search_order geo (page_hint ct) = Inr pgs
         \<and> find (\<lambda>p. sublist (norm_text (cit_quote ct)) (page_text p)) pgs = Some pg'
         \<and> holds_quote geo ct pg'
         \<and> resolve_citation cfg geo cid k ct
             = Inr (ct\<lparr>cit_highlight_id := Some (hl_id h)\<rparr>, [h], k + 1)
         \<and> hl_id h = k \<and> hl_page h = page_index pg' \<and> hl_comment_id h = cid"
proof -
  let ?q = "norm_text (cit_quote ct)"
  from search_order_ok[OF hint] obtain pgs
    where pgs: "search_order geo (page_hint ct) = Inr pgs" "set pgs = set geo" by blast
  have "find (\<lambda>p. sublist ?q (page_text p)) pgs \<noteq> None"
    using pg pgs(2) by (auto simp: find_None_iff holds_quote_def)
  then obtain pg' where pg': "find (\<lambda>p. sublist ?q (page_text p)) pgs = Some pg'" by auto
  then have inside: "holds_quote geo ct pg'"
    using pgs(2) by (auto simp: find_Some_iff holds_quote_def)
  have "(\<lambda>p. exact_match ?q p \<noteq> None) = (\<lambda>p. sublist ?q (page_text p))"
    by (rule ext) (rule exact_match_iff)
  with pg' have "find (\<lambda>p. exact_match ?q p \<noteq> None) pgs = Some pg'"
    by (simp only:)
  from first_match_find[OF this] obtain b
    where b: "first_match (exact_match ?q) pgs = Some (pg', b)" by blast
  have "resolve_citation cfg geo cid k ct
          = Inr (ct\<lparr>cit_highlight_id := Some (hl_id (new_highlight k cid pg' b))\<rparr>,
                 [new_highlight k cid pg' b], k + 1)"
    using pgs(1) b by (simp add: resolve_citation_def locate_def Let_def new_highlight_def)
  moreover have "hl_id (new_highlight k cid pg' b) = k"
    and "hl_page (new_highlight k cid pg' b) = page_index pg'"
    and "hl_comment_id (new_highlight k cid pg' b) = cid"
    by (simp_all add: new_highlight_def)
  ultimately show ?thesis
    using pgs(1) pg' inside by blast
qed

lemma anchor_found_one:
  assumes "page_hint ct = None \<or> (\<exists>p \<in> set geo. page_hint ct = Some (page_index p))"
      and "resolve_citation cfg geo cid k ct = Inr (ct', hs, n)"
  shows "anchor_found geo cid ct ct' hs"
  unfolding anchor_found_def
proof (intro allI impI)
  fix pg assume pg: "holds_quote geo ct pg"
  from resolve_citation_exact[OF assms(1) pg, of cfg cid k] assms(2)
  obtain pg' h where h: "holds_quote geo ct pg'" "ct' = ct\<lparr>cit_highlight_id := Some (hl_id h)\<rparr>"
      "hs = [h]" "hl_page h = page_index pg'" "hl_comment_id h = cid"
    by auto
  have only: "(\<forall>p. holds_quote geo ct p \<longrightarrow> p = pg) \<longrightarrow> hl_page h = page_index pg"
    using h(1,4) by blast
  have "h \<in> set hs" "cit_highlight_id ct' = Some (hl_id h)"
    using h(2,3) by simp_all
  with h(1,4,5) only
  show "\<exists>h \<in> set hs. \<exists>pg'. holds_quote geo ct pg'
           \<and> cit_highlight_id ct' = Some (hl_id h)
           \<and> hl_page h = page_index pg' \<and> hl_comment_id h = cid
           \<and> ((\<forall>p. holds_quote geo ct p \<longrightarrow> p = pg) \<longrightarrow> hl_page h = page_index pg)"
    by blast
qed

lemma anchor_found_mono:
  "anchor_found geo cid ct ct' hs \<Longrightarrow> set hs \<subseteq> set hs' \<Longrightarrow> anchor_found geo cid ct ct' hs'"
  unfolding anchor_found_def by (meson subsetD)

lemma resolve_citations_exact:
  assumes "\<forall>ct \<in> set cts. page_hint ct = None \<or> (\<exists>p \<in> set geo. page_hint ct = Some (page_index p))"
  shows "\<exists>cts' hs n. resolve_citations cfg geo cid k cts = Inr (cts', hs, n)
           \<and> length cts' = length cts
           \<and> (\<forall>i < length cts. anchor_found geo cid (cts ! i) (cts' ! i) hs)"
  using assms
proof (induction cts arbitrary: k)
  case Nil
  then show ?case by simp
next
  case (Cons ct cts)
  from Cons.prems have h1: "page_hint ct = None \<or> (\<exists>p \<in> set geo. page_hint ct = Some (page_index p))"
    by simp
  from resolve_citation_total[OF h1] obtain ct1 hs1 n1
    where s1: "resolve_citation cfg geo cid k ct = Inr (ct1, hs1, n1)" by blast
  from Cons.IH[of n1] Cons.prems obtain cts2 hs2 n2
    where s2: "resolve_citations cfg geo cid n1 cts = Inr (cts2, hs2, n2)"
      and len: "length cts2 = length cts"
      and rest: "\<forall>i < length cts. anchor_found geo cid (cts ! i) (cts2 ! i) hs2"
    by auto
  have run: "resolve_citations cfg geo cid k (ct # cts) = Inr (ct1 # cts2, hs1 @ hs2, n2)"
    using s1 s2 by simp
  have "anchor_found geo cid ((ct # cts) ! i) ((ct1 # cts2) ! i) (hs1 @ hs2)"
    if "i < length (ct # cts)" for i
  proof (cases i)
    case 0
    from anchor_found_mono[OF anchor_found_one[OF h1 s1], of "hs1 @ hs2"] 0
    show ?thesis by simp
  next
    case (Suc j)
    with that rest have "anchor_found geo cid (cts ! j) (cts2 ! j) hs2" by simp
    from anchor_found_mono[OF this, of "hs1 @ hs2"] Suc show ?thesis by simp
  qed
  with run len show ?case by simp
qed

text \<open>
  Claim C3, amended.  Take a comment whose citations' page hints, where present,
  each name a page of the geometry.  Then \<open>resolve\<close> returns, and every citation of
  the comment whose quote, normalised, is a substring of the text of some page
  gets a \<open>highlight_id\<close> that is not null.  Its highlight is linked to the comment
  and anchored on a page that holds the quote; that is the page in question
  when no other page holds the quote.
\<close>

theorem resolve_exact_quote:
  assumes "\<forall>ct \<in> set (cm_citations c).
             page_hint ct = None \<or> (\<exists>p \<in> set geo. page_hint ct = Some (page_index p))"
  shows "\<exists>cts hs k'.
           resolve cfg geo k c = Inr (c\<lparr>cm_citations := cts\<rparr>, hs, k')
         \<and> length cts = length (cm_citations c)
         \<and> (\<forall>i < length cts. \<forall>pg. holds_quote geo (cm_citations c ! i) pg \<longrightarrow>
              (\<exists>h \<in> set hs. \<exists>pg'. holds_quote geo (cm_citations c ! i) pg'
                 \<and> cit_highlight_id (cts ! i) = Some (hl_id h)
                 \<and> hl_page h = page_index pg' \<and> hl_comment_id h = cm_id c
                 \<and> ((\<forall>p. holds_quote geo (cm_citations c ! i) p \<longrightarrow> p = pg)
                      \<longrightarrow> hl_page h = page_index pg)))"
proof -
  from resolve_citations_exact[OF assms, of cfg "cm_id c" k] obtain cts hs k'
    where r: "resolve_citations cfg geo (cm_id c) k (cm_citations c) = Inr (cts, hs, k')"
      and len: "length cts = length (cm_citations c)"
      and a: "\<forall>i < length (cm_citations c). anchor_found geo (cm_id c) (cm_citations c ! i) (cts ! i) hs"
    by blast
  have "resolve cfg geo k c = Inr (c\<lparr>cm_citations := cts\<rparr>, hs, k')"
    using r by (simp add: resolve_def)
  moreover have "\<forall>i < length cts. \<forall>pg. holds_quote geo (cm_citations c ! i) pg \<longrightarrow>
              (\<exists>h \<in> set hs. \<exists>pg'. holds_quote geo (cm_citations c ! i) pg'
                 \<and> cit_highlight_id (cts ! i) = Some (hl_id h)
                 \<and> hl_page h = page_index pg' \<and> hl_comment_id h = cm_id c
                 \<and> ((\<forall>p. holds_quote geo (cm_citations c ! i) p \<longrightarrow> p = pg)
                      \<longrightarrow> hl_page h = page_index pg))"
    using a unfolding len anchor_found_def .
  ultimately show ?thesis
    using len by (intro exI conjI)
qed

lemmas resolver_eval =
  resolve_citation_def locate_def search_order_def three_pages_def page_of_def
  accuracy_quote_def accuracy_span_def exact_match_def covering_spans_def empty_box_def approx_match_def windows_def
  page_text_def span_words_def owners_def strict_config_def exact_sim_def
  norm_text_def split_ws_def to_lower_def is_space_def new_highlight_def span_box_def box_union_def

lemmas comment_eval =
  resolve_def cited_comment_def badly_hinted_comment_def parsed_comment_def missing_quote_def
  two_pages_def

theorem resolve_exact_quote_witness:
  "cm_citations cited_comment = [accuracy_quote (Some 1), missing_quote]
   \<and> page_hint (accuracy_quote (Some 1)) = Some (page_index (page_of 1 [accuracy_span]))
   \<and> page_of 1 [accuracy_span] \<in> set two_pages
   \<and> page_hint missing_quote = None
   \<and> holds_quote two_pages (accuracy_quote (Some 1)) (page_of 1 [accuracy_span])
   \<and> filter (holds_quote two_pages (accuracy_quote (Some 1))) two_pages
       = [page_of 1 [accuracy_span]]
   \<and> (\<exists>cts hs k'.
         resolve strict_config two_pages 5 cited_comment
           = Inr (cited_comment\<lparr>cm_citations := cts\<rparr>, hs, k')
       \<and> (\<exists>h \<in> set hs. cit_highlight_id (cts ! 0) = Some (hl_id h)
             \<and> hl_page h = page_index (page_of 1 [accuracy_span])
             \<and> hl_comment_id h = cm_id cited_comment))
   \<and> resolve strict_config two_pages 5 cited_comment
       = Inr (cited_comment\<lparr>cm_citations :=
                 [(accuracy_quote (Some 1))\<lparr>cit_highlight_id := Some 5\<rparr>, missing_quote]\<rparr>,
              [\<lparr> hl_id = 5, hl_page = 1, hl_x0 = 10, hl_y0 = 20, hl_x1 = 300, hl_y1 = 35,
                 hl_width = 600, hl_height = 800, hl_comment_id = 4 \<rparr>], 6)"
proof -
  let ?ct = "accuracy_quote (Some 1)"
  let ?pg = "page_of 1 [accuracy_span]"
  have cs: "cm_citations cited_comment = [?ct, missing_quote]"
    by (simp add: cited_comment_def)
  have h1: "page_hint ?ct = Some (page_index ?pg)"
    by (simp add: accuracy_quote_def page_of_def)
  have m: "?pg \<in> set two_pages"
    by (simp add: two_pages_def)
  have h2: "page_hint missing_quote = None"
    by (simp add: missing_quote_def)
  have hyps: "\<forall>ct \<in> set (cm_citations cited_comment).
                page_hint ct = None \<or> (\<exists>p \<in> set two_pages. page_hint ct = Some (page_index p))"
    using h1 h2 m by (auto simp: cs)
  have f: "filter (holds_quote two_pages ?ct) two_pages = [?pg]"
    by (simp add: holds_quote_def sublist_find_sub resolver_eval two_pages_def)
  have hq: "holds_quote two_pages ?ct ?pg"
    by (simp add: holds_quote_def sublist_find_sub resolver_eval two_pages_def)
  have only: "\<forall>p. holds_quote two_pages ?ct p \<longrightarrow> p = ?pg"
  proof (intro allI impI)
    fix p assume p: "holds_quote two_pages ?ct p"
    then have "p \<in> set two_pages" by (simp add: holds_quote_def)
    with p have "p \<in> set (filter (holds_quote two_pages ?ct) two_pages)" by simp
    then show "p = ?pg" by (simp only: f) simp
  qed
  have e: "resolve strict_config two_pages 5 cited_comment
       = Inr (cited_comment\<lparr>cm_citations :=
                 [?ct\<lparr>cit_highlight_id := Some 5\<rparr>, missing_quote]\<rparr>,
              [\<lparr> hl_id = 5, hl_page = 1, hl_x0 = 10, hl_y0 = 20, hl_x1 = 300, hl_y1 = 35,
                 hl_width = 600, hl_height = 800, hl_comment_id = 4 \<rparr>], 6)"
    by (simp add: comment_eval resolver_eval)
  from resolve_exact_quote [OF hyps, of strict_config 5] obtain cts hs k' where
    r: "resolve strict_config two_pages 5 cited_comment
          = Inr (cited_comment\<lparr>cm_citations := cts\<rparr>, hs, k')" and
    len: "length cts = length (cm_citations cited_comment)" and
    a: "\<forall>i < length cts. \<forall>pg. holds_quote two_pages (cm_citations cited_comment ! i) pg \<longrightarrow>
              (\<exists>h \<in> set hs. \<exists>pg'. holds_quote two_pages (cm_citations cited_comment ! i) pg'
                 \<and> cit_highlight_id (cts ! i) = Some (hl_id h)
                 \<and> hl_page h = page_index pg' \<and> hl_comment_id h = cm_id cited_comment
                 \<and> ((\<forall>p. holds_quote two_pages (cm_citations cited_comment ! i) p \<longrightarrow> p = pg)
                      \<longrightarrow> hl_page h = page_index pg))"
    by blast
  have pos: "0 < length cts"
    using len by (simp add: cs)
  have c0: "cm_citations cited_comment ! 0 = ?ct"
    by (simp add: cs)
  note a0 = a [rule_format, OF pos, unfolded c0, OF hq]
  from a0 only have "\<exists>h \<in> set hs. cit_highlight_id (cts ! 0) = Some (hl_id h)
             \<and> hl_page h = page_index ?pg \<and> hl_comment_id h = cm_id cited_comment"
    by blast
  with r have "\<exists>cts hs k'.
         resolve strict_config two_pages 5 cited_comment
           = Inr (cited_comment\<lparr>cm_citations := cts\<rparr>, hs, k')
       \<and> (\<exists>h \<in> set hs. cit_highlight_id (cts ! 0) = Some (hl_id h)
             \<and> hl_page h = page_index ?pg \<and> hl_comment_id h = cm_id cited_comment)"
    by blast
  with cs h1 m h2 hq f e show ?thesis
    by (intro conjI)
qed

text \<open>
  Claim C3 as stated fails when a page hint names no page of the geometry.  The
  quote of both citations of this comment stands on page 2, but the hint of the
  second names page 3: \<open>resolve\<close> raises \<open>GeometryUnavailable\<close> (section 4.4), and
  neither citation gets a \<open>highlight_id\<close>.
\<close>

theorem resolve_exact_quote_counterexample:
  "cm_citations badly_hinted_comment = [accuracy_quote (Some 2), accuracy_quote (Some 3)]
   \<and> holds_quote three_pages (accuracy_quote (Some 2)) (page_of 2 [accuracy_span])
   \<and> holds_quote three_pages (accuracy_quote (Some 3)) (page_of 2 [accuracy_span])
   \<and> resolve strict_config three_pages 5 badly_hinted_comment = Inl GeometryUnavailable"
  by (simp add: comment_eval holds_quote_def sublist_find_sub resolver_eval)

text \<open>
  For comparison: a blank quote matches on the first page, which has no spans,
  and its highlight has the empty box.
\<close>

lemma blank_quote_highlight:
  "resolve_citation strict_config three_pages 4 5 blank_quote =
     Inr (blank_quote\<lparr>cit_highlight_id := Some 5\<rparr>,
          [\<lparr> hl_id = 5, hl_page = 0, hl_x0 = 0, hl_y0 = 0, hl_x1 = 0, hl_y1 = 0,
             hl_width = 600, hl_height = 800, hl_comment_id = 4 \<rparr>], 6)"
  by (simp add: resolver_eval blank_quote_def)

subsection \<open>Review Aggregator\<close>

lemma resolve_citation_inv:
  assumes "resolve_citation cfg geo cid next ct = Inr (ct', hs, next')"
  shows "fresh_highlights next next' hs \<and> (\<forall>h \<in> set hs. hl_comment_id h = cid)
       \<and> anchored [ct'] hs"
  using assms
  by (auto simp: resolve_citation_def fresh_highlights_def anchored_def new_highlight_def
           split: sum.splits option.splits prod.splits)

lemma fresh_append:
  "fresh_highlights a b hs \<Longrightarrow> fresh_highlights b c hs' \<Longrightarrow> fresh_highlights a c (hs @ hs')"
  by (fastforce simp: fresh_highlights_def)

lemma anchored_mono:
  "anchored cts hs \<Longrightarrow> set hs \<subseteq> set hs' \<Longrightarrow> anchored cts hs'"
  by (fastforce simp: anchored_def)

lemma anchored_append:
  "anchored cts hs \<Longrightarrow> anchored cts' hs' \<Longrightarrow> anchored (cts @ cts') (hs @ hs')"
  by (fastforce simp: anchored_def)

lemma resolve_citations_inv:
  "resolve_citations cfg geo cid next cts = Inr (cts', hs, next') \<Longrightarrow>
     fresh_highlights next next' hs \<and> (\<forall>h \<in> set hs. hl_comment_id h = cid) \<and> anchored cts' hs"
proof (induction cts arbitrary: "next" cts' hs next')
  case Nil
  then show ?case by (simp add: fresh_highlights_def anchored_def)
next
  case (Cons ct cts)
  from Cons.prems obtain ct1 hs1 n1 cts2 hs2 where
    s1: "resolve_citation cfg geo cid next ct = Inr (ct1, hs1, n1)" and
    s2: "resolve_citations cfg geo cid n1 cts = Inr (cts2, hs2, next')" and
    eq: "cts' = ct1 # cts2" "hs = hs1 @ hs2"
    by (auto split: sum.splits prod.splits)
  note a = resolve_citation_inv[OF s1] and b = Cons.IH[OF s2]
  have "anchored ([ct1] @ cts2) (hs1 @ hs2)"
    using a b by (intro anchored_append) simp_all
  with a b eq show ?case
    by (auto intro: fresh_append)
qed

lemma comments_ok_append:
  assumes "comments_ok a b cs hs" "comments_ok b c cs' hs'"
  shows "comments_ok a c (cs @ cs') (hs @ hs')"
proof -
  have "fresh_highlights a c (hs @ hs')"
    using assms by (auto simp: comments_ok_def intro: fresh_append)
  moreover have "\<forall>h \<in> set (hs @ hs'). hl_comment_id h \<in> cm_id ` set (cs @ cs')"
    using assms by (auto simp: comments_ok_def)
  moreover have "\<forall>x \<in> set (cs @ cs'). a \<le> cm_id x \<and> cm_id x < c \<and> anchored (cm_citations x) (hs @ hs')"
  proof
    fix x assume "x \<in> set (cs @ cs')"
    then consider "x \<in> set cs" | "x \<in> set cs'" by auto
    then show "a \<le> cm_id x \<and> cm_id x < c \<and> anchored (cm_citations x) (hs @ hs')"
    proof cases
      case 1
      with assms have "a \<le> cm_id x" "cm_id x < b" "b \<le> c" "anchored (cm_citations x) hs"
        by (auto simp: comments_ok_def fresh_highlights_def)
      then show ?thesis by (auto intro: anchored_mono)
    next
      case 2
      with assms have "b \<le> cm_id x" "cm_id x < c" "a \<le> b" "anchored (cm_citations x) hs'"
        by (auto simp: comments_ok_def fresh_highlights_def)
      then show ?thesis by (auto intro: anchored_mono)
    qed
  qed
  ultimately show ?thesis by (simp add: comments_ok_def)
qed

lemma resolve_inv:
  assumes "resolve cfg geo (Suc next) (c\<lparr>cm_id := next\<rparr>) = Inr (c', hs, next')"
  shows "comments_ok next next' [c'] hs"
proof -
  from assms obtain cts where
    r: "resolve_citations cfg geo next (Suc next) (cm_citations c) = Inr (cts, hs, next')" and
    c': "c' = c\<lparr>cm_id := next, cm_citations := cts\<rparr>"
    by (auto simp: resolve_def split: sum.splits prod.splits)
  from resolve_citations_inv[OF r] c' show ?thesis
    by (auto simp: comments_ok_def fresh_highlights_def)
qed

lemma build_comments_inv:
  "build_comments cfg geo next cs = Inr (cs', hs, next') \<Longrightarrow> comments_ok next next' cs' hs"
proof (induction cs arbitrary: "next" cs' hs next')
  case Nil
  then show ?case by (simp add: comments_ok_def fresh_highlights_def)
next
  case (Cons c cs)
  from Cons.prems obtain c1 hs1 n1 cs2 hs2 where
    s1: "resolve cfg geo (Suc next) (c\<lparr>cm_id := next\<rparr>) = Inr (c1, hs1, n1)" and
    s2: "build_comments cfg geo n1 cs = Inr (cs2, hs2, next')" and
    eq: "cs' = [c1] @ cs2" "hs = hs1 @ hs2"
    by (auto split: sum.splits prod.splits)
  from comments_ok_append[OF resolve_inv[OF s1] Cons.IH[OF s2]] eq show ?case
    by simp
qed

lemma build_reviewers_inv:
  "build_reviewers cfg geo next rs = Inr (rs', cs, hs, next') \<Longrightarrow>
     comments_ok next next' cs hs \<and> (\<forall>r \<in> set rs'. set (rr_comments r) \<subseteq> set cs)"
proof (induction rs arbitrary: "next" rs' cs hs next')
  case Nil
  then show ?case by (simp add: comments_ok_def fresh_highlights_def)
next
  case (Cons r rs)
  from Cons.prems obtain cs1 hs1 n1 rs2 cs2 hs2 where
    s1: "build_comments cfg geo next (rr_comments r) = Inr (cs1, hs1, n1)" and
    s2: "build_reviewers cfg geo n1 rs = Inr (rs2, cs2, hs2, next')" and
    eq: "rs' = r\<lparr>rr_comments := cs1\<rparr> # rs2" "cs = cs1 @ cs2" "hs = hs1 @ hs2"
    by (auto split: sum.splits prod.splits)
  from comments_ok_append[OF build_comments_inv[OF s1] conjunct1[OF Cons.IH[OF s2]]]
       conjunct2[OF Cons.IH[OF s2]] eq
  show ?case by auto
qed

text \<open>
  Claim C2.  In every result of \<open>build\<close>, every highlight's \<open>comment_id\<close> is the
  identifier of a comment of the result, and every citation's \<open>highlight_id\<close>
  that is not null is the identifier of a highlight of the result.  The
  comments listed under the reviewers are comments of the result, so the same
  holds for them.
\<close>

theorem build_no_dangling_references:
  assumes "build cfg rid title reviewer_results geo = Inr res"
  shows "(\<forall>h \<in> set (res_highlights res). \<exists>c \<in> set (res_comments res). cm_id c = hl_comment_id h)
       \<and> (\<forall>c \<in> set (res_comments res). \<forall>ct \<in> set (cm_citations c). \<forall>k.
             cit_highlight_id ct = Some k \<longrightarrow> (\<exists>h \<in> set (res_highlights res). hl_id h = k))
       \<and> (\<forall>r \<in> set (res_reviewers res). set (rr_comments r) \<subseteq> set (res_comments res))"
proof -
  from assms obtain rs cs hs n where
    b: "build_reviewers cfg geo 1 reviewer_results = Inr (rs, cs, hs, n)" and
    res: "res_reviewers res = rs" "res_comments res = cs" "res_highlights res = hs"
    by (auto simp: build_def split: sum.splits prod.splits)
  from build_reviewers_inv[OF b] have ok: "comments_ok 1 n cs hs"
    and sub: "\<forall>r \<in> set rs. set (rr_comments r) \<subseteq> set cs"
    by simp_all
  have "\<forall>h \<in> set hs. \<exists>c \<in> set cs. cm_id c = hl_comment_id h"
    using ok by (fastforce simp: comments_ok_def image_iff)
  moreover have "\<forall>c \<in> set cs. \<forall>ct \<in> set (cm_citations c). \<forall>k.
             cit_highlight_id ct = Some k \<longrightarrow> (\<exists>h \<in> set hs. hl_id h = k)"
    using ok by (fastforce simp: comments_ok_def anchored_def)
  ultimately show ?thesis
    using sub res by simp
qed

lemma build_sample:
  "build strict_config ''r1'' ''A paper'' two_results three_pages = Inr built_review"
  by (simp add: build_def two_results_def parsed_comment_def resolve_def missing_quote_def
        built_review_def built_comment_def built_highlight_def resolver_eval)

theorem build_no_dangling_references_witness:
  "build strict_config ''r1'' ''A paper'' two_results three_pages = Inr built_review
   \<and> res_highlights built_review = [built_highlight]
   \<and> (\<exists>c \<in> set (res_comments built_review). cm_id c = hl_comment_id built_highlight)
   \<and> (\<exists>h \<in> set (res_highlights built_review). hl_id h = 2)"
proof -
  note t = build_no_dangling_references [OF build_sample]
  have h: "built_highlight \<in> set (res_highlights built_review)"
    by (simp add: built_review_def)
  have c: "built_comment \<in> set (res_comments built_review)"
    by (simp add: built_review_def)
  have ct: "(accuracy_quote (Some 2))\<lparr>cit_highlight_id := Some 2\<rparr> \<in> set (cm_citations built_comment)"
    by (simp add: built_comment_def)
  have "\<exists>c \<in> set (res_comments built_review). cm_id c = hl_comment_id built_highlight"
    using t h by blast
  moreover have "\<exists>h \<in> set (res_highlights built_review). hl_id h = 2"
    using conjunct1 [OF conjunct2 [OF t], rule_format, OF c ct, of 2] by simp
  ultimately show ?thesis
    using build_sample by (simp add: built_review_def)
qed

text \<open>
  The identifiers of the highlights of a result are distinct.
\<close>

lemma build_ids_unique:
  assumes "build cfg rid title reviewer_results geo = Inr res"
  shows "distinct (map hl_id (res_highlights res))"
proof -
  from assms obtain rs cs hs n where
    b: "build_reviewers cfg geo 1 reviewer_results = Inr (rs, cs, hs, n)" and
    res: "res_highlights res = hs"
    by (auto simp: build_def split: sum.splits prod.splits)
  from build_reviewers_inv[OF b] res show ?thesis
    by (simp add: comments_ok_def fresh_highlights_def)
qed

subsection \<open>Reviewer Orchestrator\<close>

lemma settle_terminal:
  "rr_status (settle limit p r) = completed \<or> rr_status (settle limit p r) = failed"
  by (simp add: settle_def failed_result_def split: task_outcome.splits)

lemma settle_not_pending: "rr_status (settle limit p r) \<noteq> pending"
  using settle_terminal[of limit p r] by auto

lemma settle_type: "rr_type (settle limit p r) = persona_type p"
  by (simp add: settle_def failed_result_def split: task_outcome.splits)

lemma on_task_end_slots:
  "on_task_end limit ps runner i (slots_after limit ps runner D)
     = slots_after limit ps runner (insert i D)"
proof (rule nth_equalityI)
  show "length (on_task_end limit ps runner i (slots_after limit ps runner D))
          = length (slots_after limit ps runner (insert i D))"
    by (simp add: on_task_end_def slots_after_def)
next
  fix j
  assume "j < length (on_task_end limit ps runner i (slots_after limit ps runner D))"
  then have j: "j < length ps"
    by (simp add: on_task_end_def slots_after_def split: if_splits)
  show "on_task_end limit ps runner i (slots_after limit ps runner D) ! j
          = slots_after limit ps runner (insert i D) ! j"
    using j settle_not_pending
    by (auto simp: on_task_end_def slots_after_def pending_result_def nth_list_update)
qed

lemma fold_on_task_end:
  "fold (on_task_end limit ps runner) ended (slots_after limit ps runner D)
     = slots_after limit ps runner (D \<union> set ended)"
proof (induction ended arbitrary: D)
  case Nil
  then show ?case by simp
next
  case (Cons i ended)
  show ?case
    by (simp add: on_task_end_slots Cons.IH)
qed

lemma map_upt_nth: "map (\<lambda>i. f (ps ! i)) [0 ..< length ps] = map f ps"
  by (rule nth_equalityI) simp_all

lemma slots_after_all:
  assumes "{..<length ps} \<subseteq> D"
  shows "slots_after limit ps runner D = map (\<lambda>p. settle limit p (runner p)) ps"
proof -
  have "slots_after limit ps runner D
          = map (\<lambda>i. settle limit (ps ! i) (runner (ps ! i))) [0 ..< length ps]"
    unfolding slots_after_def using assms by (intro map_cong) auto
  also have "\<dots> = map (\<lambda>p. settle limit p (runner p)) ps"
    by (rule map_upt_nth)
  finally show ?thesis .
qed

text \<open>While some task has not ended, the result is not there.\<close>

lemma run_all_waits:
  assumes "i < length ps" "i \<notin> set ended"
  shows "run_all limit ps runner ended = None"
proof -
  have start: "map pending_result ps = slots_after limit ps runner {}"
    by (simp add: slots_after_def map_upt_nth)
  have f: "fold (on_task_end limit ps runner) ended (map pending_result ps)
             = slots_after limit ps runner (set ended)"
    by (simp add: start fold_on_task_end)
  have "slots_after limit ps runner (set ended) ! i = pending_result (ps ! i)"
    using assms by (simp add: slots_after_def)
  moreover have "i < length (slots_after limit ps runner (set ended))"
    using assms(1) by (simp add: slots_after_def)
  ultimately have "\<exists>r \<in> set (slots_after limit ps runner (set ended)). rr_status r = pending"
    by (metis nth_mem pending_result_def ReviewerResult.select_convs(2))
  then have "\<not> list_all (\<lambda>r. rr_status r \<noteq> pending) (slots_after limit ps runner (set ended))"
    by (auto simp: list_all_iff)
  then show ?thesis
    by (simp add: run_all_def f Let_def)
qed

text \<open>
  Claim C1.  Once every task has ended, in whatever order, \<open>run_all\<close> returns
  one result per persona, in persona order, each the result of its own task and
  each completed or failed; the run is reported as succeeded exactly when at
  least one result is completed, and as failed exactly when all have failed.
\<close>

theorem run_all_reports:
  assumes "set ended = {..<length ps}"
  shows "\<exists>rep. run_all limit ps runner ended = Some rep
           \<and> results rep = map (\<lambda>p. settle limit p (runner p)) ps
           \<and> map rr_type (results rep) = map persona_type ps
           \<and> (\<forall>r \<in> set (results rep). rr_status r = completed \<or> rr_status r = failed)
           \<and> (succeeded rep \<longleftrightarrow> (\<exists>r \<in> set (results rep). rr_status r = completed))
           \<and> (\<not> succeeded rep \<longleftrightarrow> (\<forall>r \<in> set (results rep). rr_status r = failed))"
proof -
  let ?slots = "map (\<lambda>p. settle limit p (runner p)) ps"
  have start: "map pending_result ps = slots_after limit ps runner {}"
    by (simp add: slots_after_def map_upt_nth)
  have f: "fold (on_task_end limit ps runner) ended (map pending_result ps) = ?slots"
    using assms by (simp add: start fold_on_task_end slots_after_all)
  have fin: "\<forall>r \<in> set ?slots. rr_status r = completed \<or> rr_status r = failed"
    using settle_terminal by auto
  from fin have np: "list_all (\<lambda>r. rr_status r \<noteq> pending) ?slots"
    by (auto simp: list_all_iff)
  have "run_all limit ps runner ended
          = Some \<lparr> results = ?slots, succeeded = list_ex (\<lambda>r. rr_status r = completed) ?slots \<rparr>"
    using np by (simp add: run_all_def f Let_def)
  moreover have "map rr_type ?slots = map persona_type ps"
    by (simp add: settle_type)
  moreover have "(\<not> list_ex (\<lambda>r. rr_status r = completed) ?slots)
                   \<longleftrightarrow> (\<forall>r \<in> set ?slots. rr_status r = failed)"
    using fin by (auto simp: list_ex_iff)
  ultimately show ?thesis
    using fin by (simp add: list_ex_iff)
qed

lemmas orchestrator_eval =
  run_all_def on_task_end_def five_personas_def two_fail_def all_fail_def settle_def
  pending_result_def failed_result_def

theorem run_all_reports_witness:
  "set [3, 0, 4, 2, 1] = {..<length five_personas}
   \<and> map_option (map rr_status \<circ> results) (run_all 120 five_personas two_fail [3, 0, 4, 2, 1])
       = Some [completed, completed, failed, failed, completed]
   \<and> map_option succeeded (run_all 120 five_personas two_fail [3, 0, 4, 2, 1]) = Some True
   \<and> map_option (map rr_status \<circ> results) (run_all 120 five_personas all_fail [3, 0, 4, 2, 1])
       = Some [failed, failed, failed, failed, failed]
   \<and> map_option succeeded (run_all 120 five_personas all_fail [3, 0, 4, 2, 1]) = Some False"
proof -
  have s: "set [3, 0, 4, 2, 1] = {..<length five_personas}"
    by (auto simp: five_personas_def)
  from run_all_reports [OF s, of 120 two_fail] obtain rep where
    rep: "run_all 120 five_personas two_fail [3, 0, 4, 2, 1] = Some rep"
         "results rep = map (\<lambda>p. settle 120 p (two_fail p)) five_personas"
         "succeeded rep \<longleftrightarrow> (\<exists>r \<in> set (results rep). rr_status r = completed)"
    by blast
  have a: "map rr_status (results rep) = [completed, completed, failed, failed, completed]"
    by (simp add: rep(2) orchestrator_eval)
  have a': "succeeded rep"
  proof -
    have "completed \<in> set (map rr_status (results rep))"
      by (simp add: a)
    then have "\<exists>r \<in> set (results rep). rr_status r = completed"
      by (metis imageE set_map)
    with rep(3) show ?thesis by simp
  qed
  from run_all_reports [OF s, of 120 all_fail] obtain rep' where
    rep': "run_all 120 five_personas all_fail [3, 0, 4, 2, 1] = Some rep'"
         "results rep' = map (\<lambda>p. settle 120 p (all_fail p)) five_personas"
         "\<not> succeeded rep' \<longleftrightarrow> (\<forall>r \<in> set (results rep'). rr_status r = failed)"
    by blast
  have b: "map rr_status (results rep') = [failed, failed, failed, failed, failed]"
    by (simp add: rep'(2) orchestrator_eval)
  have b': "\<not> succeeded rep'"
    using rep'(3) by (simp add: rep'(2) orchestrator_eval)
  show ?thesis
    using s rep(1) rep'(1) a a' b b' by simp
qed

end
